theory Spec2Isabelle
  imports Main "HOL-Library.Word"
begin

section \<open>Strings\<close>

text \<open>
  A JavaScript string is a sequence of code units; \<open>length\<close>, \<open>slice\<close>, \<open>indexOf\<close>
  and \<open>charCodeAt\<close> all count code units. The model writes it as a \<^typ>\<open>string\<close>, one
  \<^typ>\<open>char\<close> per code unit, which covers the code units below 256. A value that may be
  \<open>undefined\<close> or \<open>null\<close> is an \<open>option\<close>.
\<close>

definition charCode :: "char \<Rightarrow> nat" where
  "charCode c = of_char c"

text \<open>\<open>toLowerCase\<close> on code units below 256: the ASCII capitals and the Latin-1 capitals
  (U+00C0 to U+00DE without the multiplication sign) move up by 32.\<close>

definition toLowerCaseChar :: "char \<Rightarrow> char" where
  "toLowerCaseChar c =
     (let n = charCode c in
      if (65 \<le> n \<and> n \<le> 90) \<or> (192 \<le> n \<and> n \<le> 222 \<and> n \<noteq> 215)
      then char_of (n + 32) else c)"

definition toLowerCase :: "string \<Rightarrow> string" where
  "toLowerCase s = map toLowerCaseChar s"

text \<open>\<open>toUpperCase\<close> is only applied to the first character of a host label or of a path
  segment of a parsed URL, which are ASCII: the ASCII small letters move down by 32.\<close>

definition toUpperCaseChar :: "char \<Rightarrow> char" where
  "toUpperCaseChar c =
     (let n = charCode c in if 97 \<le> n \<and> n \<le> 122 then char_of (n - 32) else c)"

text \<open>White space and line terminators (what \<open>trim\<close> strips and \<open>\s\<close> matches).\<close>

definition isWhiteSpace :: "char \<Rightarrow> bool" where
  "isWhiteSpace c = (charCode c \<in> {9, 10, 11, 12, 13, 32, 160})"

definition trim :: "string \<Rightarrow> string" where
  "trim s = rev (dropWhile isWhiteSpace (rev (dropWhile isWhiteSpace s)))"

definition startsWith :: "string \<Rightarrow> string \<Rightarrow> bool" where
  "startsWith s p = (take (length p) s = p)"

text \<open>\<open>s.includes(sub)\<close>: \<open>sub\<close> occurs in \<open>s\<close> as a contiguous block (primed, since
  \<open>includes\<close> is a keyword of Isabelle).\<close>

fun includes' :: "string \<Rightarrow> string \<Rightarrow> bool" where
  "includes' [] sub = (sub = [])"
| "includes' (c # cs) sub = (startsWith (c # cs) sub \<or> includes' cs sub)"

text \<open>\<open>s.indexOf(c)\<close> and \<open>s.lastIndexOf(c)\<close> for a single character: \<open>-1\<close> when absent.\<close>

fun indexOf :: "string \<Rightarrow> char \<Rightarrow> int" where
  "indexOf [] c = -1"
| "indexOf (x # xs) c =
     (if x = c then 0 else (let i = indexOf xs c in if i = -1 then -1 else i + 1))"

fun lastIndexOf :: "string \<Rightarrow> char \<Rightarrow> int" where
  "lastIndexOf [] c = -1"
| "lastIndexOf (x # xs) c =
     (let i = lastIndexOf xs c in
      if i = -1 then (if x = c then 0 else -1) else i + 1)"

text \<open>\<open>s.slice(a, b)\<close> for indices \<open>0 \<le> a\<close>, \<open>0 \<le> b\<close>.\<close>

definition slice :: "string \<Rightarrow> int \<Rightarrow> int \<Rightarrow> string" where
  "slice s a b = take (nat b - nat a) (drop (nat a) s)"

text \<open>\<open>s.split(sep)\<close> where the separator is one character out of a class; an empty
  string gives one empty piece.\<close>

fun split_when :: "(char \<Rightarrow> bool) \<Rightarrow> string \<Rightarrow> string list" where
  "split_when sep [] = [[]]"
| "split_when sep (x # xs) =
     (if sep x then [] # split_when sep xs
      else (case split_when sep xs of
              [] \<Rightarrow> [[x]]
            | w # ws \<Rightarrow> (x # w) # ws))"

definition split_on :: "char \<Rightarrow> string \<Rightarrow> string list" where
  "split_on c s = split_when (\<lambda>x. x = c) s"

fun join :: "string \<Rightarrow> string list \<Rightarrow> string" where
  "join sep [] = []"
| "join sep [x] = x"
| "join sep (x # y # ys) = x @ sep @ join sep (y # ys)"

text \<open>\<open>xs.filter(Boolean)\<close> on a list of strings and nulls keeps the non-empty strings.\<close>

definition orEmpty :: "string option \<Rightarrow> string" where
  "orEmpty v = (case v of None \<Rightarrow> [] | Some s \<Rightarrow> s)"

definition filter_Boolean :: "string option list \<Rightarrow> string list" where
  "filter_Boolean xs = filter (\<lambda>s. s \<noteq> []) (map orEmpty xs)"

text \<open>An integer inside a template literal: its decimal digits, after a minus sign when
  it is negative.\<close>

definition digit :: "int \<Rightarrow> char" where
  "digit d = ''0123456789'' ! nat d"

function digits :: "int \<Rightarrow> string" where
  "digits n = (if n < 10 then [digit n] else digits (n div 10) @ [digit (n mod 10)])"
  by pat_completeness auto
termination
  by (relation "measure nat") auto

declare digits.simps [simp del]

definition decimal :: "int \<Rightarrow> string" where
  "decimal n = (if n < 0 then CHR ''-'' # digits (- n) else digits n)"

section \<open>Platform functions\<close>

datatype error =
    ModelNotConfigured
  | EmptyResponse
  | NoJsonBlock
  | JsonSyntaxError
  | AiCallFailed
  | TypeError
  | NoProviders

text \<open>A parsed JSON value; an object lists each of its keys once. The engine looks at the
  type of a value and at strings, never at the value of a number.\<close>

datatype json =
    JNull
  | JBool bool
  | JNumber int
  | JString string
  | JArray "json list"
  | JObject "(string \<times> json) list"

record URL =
  hostname :: string
  pathname :: string

text \<open>
  The functions of the JavaScript platform the code calls and does not define:
  \<open>JSON.parse\<close> (\<open>None\<close>: it throws a SyntaxError), \<open>new URL(link)\<close> (\<open>None\<close>: it
  throws a TypeError) and \<open>URLSearchParams.toString\<close> on the list of name and value pairs
  set so far.
\<close>

record platform =
  JSON_parse :: "string \<Rightarrow> json option"
  URL_parse :: "string \<Rightarrow> URL option"
  URLSearchParams_toString :: "(string \<times> string) list \<Rightarrow> string"

text \<open>\<open>params.set(name, value)\<close>: replaces the value of an existing name, appends otherwise.\<close>

fun params_set :: "(string \<times> string) list \<Rightarrow> string \<Rightarrow> string \<Rightarrow> (string \<times> string) list" where
  "params_set [] k v = [(k, v)]"
| "params_set ((k', v') # ps) k v =
     (if k' = k then (k, v) # filter (\<lambda>kv. fst kv \<noteq> k) ps else (k', v') # params_set ps k v)"

section \<open>Resume analyzer helpers\<close>

definition MAX_RESUME_LENGTH :: nat where
  "MAX_RESUME_LENGTH = 8000"

definition truncateContent :: "string \<Rightarrow> string" where
  "truncateContent content =
     (if content = [] then []
      else if length content \<le> MAX_RESUME_LENGTH then content
      else take MAX_RESUME_LENGTH content @ ''...'')"

text \<open>\<open>safeJsonParse\<close>: the block from the first opening brace to the last closing brace,
  handed to \<open>JSON.parse\<close>; every \<open>throw\<close> is an \<open>Inl\<close>.\<close>

definition safeJsonParse :: "platform \<Rightarrow> string \<Rightarrow> error + json" where
  "safeJsonParse P text =
     (if text = [] then Inl EmptyResponse
      else
        let firstBrace = indexOf text CHR ''{'';
            lastBrace = lastIndexOf text CHR ''}''
        in if firstBrace = -1 \<or> lastBrace = -1 \<or> lastBrace \<le> firstBrace then Inl NoJsonBlock
           else
             let possibleJson = slice text firstBrace (lastBrace + 1)
             in (case JSON_parse P possibleJson of
                   None \<Rightarrow> Inl JsonSyntaxError
                 | Some v \<Rightarrow> Inr v))"

section \<open>Search providers\<close>

record JobQuery =
  title :: string
  query :: string

record SearchProvider =
  name :: string
  hosts :: "string list"
  buildUrl :: "JobQuery \<Rightarrow> string option \<Rightarrow> string option \<Rightarrow> bool \<Rightarrow> string"

text \<open>The arguments of \<open>buildUrl\<close> are the fields \<open>query\<close>, \<open>company\<close>, \<open>location\<close> and
  \<open>remote\<close> of its options object; an absent \<open>remote\<close> is falsy, hence \<open>False\<close>.\<close>

definition searchKeywords :: "JobQuery \<Rightarrow> string option \<Rightarrow> string option \<Rightarrow> string" where
  "searchKeywords q company marker =
     join '' '' (filter_Boolean
       [Some (if orEmpty company \<noteq> [] then orEmpty company @ '' '' @ title q else query q),
        marker])"

definition linkedin_buildUrl :: "platform \<Rightarrow> JobQuery \<Rightarrow> string option \<Rightarrow> string option \<Rightarrow> bool \<Rightarrow> string" where
  "linkedin_buildUrl P q company location remote =
     (let keywords = searchKeywords q company (if remote then Some ''remote'' else None);
          p0 = [];
          p1 = (if keywords \<noteq> [] then params_set p0 ''keywords'' keywords else p0);
          p2 = (if \<not> remote \<and> trim (orEmpty location) \<noteq> []
                then params_set p1 ''location'' (trim (orEmpty location)) else p1)
      in ''https://www.linkedin.com/jobs/search/?'' @ URLSearchParams_toString P p2)"

definition jobstreet_buildUrl :: "platform \<Rightarrow> JobQuery \<Rightarrow> string option \<Rightarrow> string option \<Rightarrow> bool \<Rightarrow> string" where
  "jobstreet_buildUrl P q company location remote =
     (let keywords = searchKeywords q company (if remote then Some ''work from home'' else None);
          p0 = [];
          p1 = (if keywords \<noteq> [] then params_set p0 ''keywords'' keywords else p0);
          p2 = params_set p1 ''page'' ''1'';
          p3 = (if \<not> remote \<and> trim (orEmpty location) \<noteq> []
                then params_set p2 ''locations'' (trim (orEmpty location)) else p2)
      in ''https://www.jobstreet.com/search/jobs?'' @ URLSearchParams_toString P p3)"

definition glassdoor_buildUrl :: "platform \<Rightarrow> JobQuery \<Rightarrow> string option \<Rightarrow> string option \<Rightarrow> bool \<Rightarrow> string" where
  "glassdoor_buildUrl P q company location remote =
     (let keyword = searchKeywords q company (if remote then Some ''remote'' else None);
          p0 = [];
          p1 = (if keyword \<noteq> [] then params_set p0 ''sc.keyword'' keyword else p0);
          p2 = (if \<not> remote \<and> trim (orEmpty location) \<noteq> []
                then params_set (params_set p1 ''locT'' ''C'') ''locName'' (trim (orEmpty location))
                else params_set (params_set p1 ''locT'' ''N'') ''locId'' ''1'');
          p3 = params_set p2 ''p'' ''1''
      in ''https://www.glassdoor.com/Job/jobs.htm?'' @ URLSearchParams_toString P p3)"

definition prosple_buildUrl :: "platform \<Rightarrow> JobQuery \<Rightarrow> string option \<Rightarrow> string option \<Rightarrow> bool \<Rightarrow> string" where
  "prosple_buildUrl P q company location remote =
     (let keywords = searchKeywords q company None;
          p0 = [];
          p1 = (if keywords \<noteq> [] then params_set p0 ''keywords'' keywords else p0);
          p2 = (if remote then params_set p1 ''location'' ''Remote''
                else if trim (orEmpty location) \<noteq> []
                then params_set p1 ''location'' (trim (orEmpty location)) else p1)
      in ''https://prosple.com/search-jobs?'' @ URLSearchParams_toString P p2)"

definition indeed_buildUrl :: "platform \<Rightarrow> JobQuery \<Rightarrow> string option \<Rightarrow> string option \<Rightarrow> bool \<Rightarrow> string" where
  "indeed_buildUrl P q company location remote =
     (let keywords = searchKeywords q company (if remote then Some ''remote'' else None);
          p0 = [];
          p1 = (if keywords \<noteq> [] then params_set p0 ''q'' keywords else p0);
          p2 = (if \<not> remote \<and> trim (orEmpty location) \<noteq> []
                then params_set p1 ''l'' (trim (orEmpty location)) else p1)
      in ''https://www.indeed.com/jobs?'' @ URLSearchParams_toString P p2)"

definition SEARCH_PROVIDERS :: "platform \<Rightarrow> SearchProvider list" where
  "SEARCH_PROVIDERS P =
     [\<lparr>name = ''LinkedIn search'', hosts = [''linkedin.com''], buildUrl = linkedin_buildUrl P\<rparr>,
      \<lparr>name = ''JobStreet search'', hosts = [''jobstreet.com''], buildUrl = jobstreet_buildUrl P\<rparr>,
      \<lparr>name = ''Glassdoor search'', hosts = [''glassdoor.com''], buildUrl = glassdoor_buildUrl P\<rparr>,
      \<lparr>name = ''Prosple search'', hosts = [''prosple.com''], buildUrl = prosple_buildUrl P\<rparr>,
      \<lparr>name = ''Indeed search'', hosts = [''indeed.com''], buildUrl = indeed_buildUrl P\<rparr>]"

definition AGGREGATOR_HOSTS :: "platform \<Rightarrow> string list" where
  "AGGREGATOR_HOSTS P = remdups (concat (map hosts (SEARCH_PROVIDERS P)))"

definition findProviderForHost :: "platform \<Rightarrow> string \<Rightarrow> SearchProvider option" where
  "findProviderForHost P host =
     (let lowerHost = toLowerCase host
      in find (\<lambda>provider. list_ex (\<lambda>h. includes' lowerHost h) (hosts provider))
           (SEARCH_PROVIDERS P))"

text \<open>Seeds, hashes and clock readings are integers; \<open>Math.abs\<close>, \<open>+\<close> and \<open>%\<close> are exact
  on them.\<close>

definition selectSearchProvider :: "platform \<Rightarrow> int \<Rightarrow> error + SearchProvider" where
  "selectSearchProvider P indexSeed =
     (if SEARCH_PROVIDERS P = [] then Inl NoProviders
      else
        let index = nat (abs indexSeed mod int (length (SEARCH_PROVIDERS P)))
        in Inr (SEARCH_PROVIDERS P ! index))"

text \<open>The result object \<open>{url, source}\<close> is the pair \<open>(url, source)\<close>.\<close>

definition buildSearchLink ::
  "platform \<Rightarrow> JobQuery \<Rightarrow> string option \<Rightarrow> string option \<Rightarrow> bool \<Rightarrow> int \<Rightarrow> error + (string \<times> string)" where
  "buildSearchLink P q company location remote seed =
     (case selectSearchProvider P seed of
        Inl e \<Rightarrow> Inl e
      | Inr provider \<Rightarrow> Inr (buildUrl provider q company location remote, name provider))"

section \<open>Company names\<close>

text \<open>\<open>slug.split(/[-_\s]+/).filter(Boolean)\<close>: the pieces between runs of separators,
  without the empty ones (splitting at every single separator leaves the same non-empty
  pieces).\<close>

definition isSlugSeparator :: "char \<Rightarrow> bool" where
  "isSlugSeparator c = (c = CHR ''-'' \<or> c = CHR ''_'' \<or> isWhiteSpace c)"

definition capitalise :: "string \<Rightarrow> string" where
  "capitalise segment = (case segment of [] \<Rightarrow> [] | c # cs \<Rightarrow> toUpperCaseChar c # cs)"

definition toTitleCase :: "string \<Rightarrow> string" where
  "toTitleCase slug =
     join '' '' (map capitalise (filter (\<lambda>s. s \<noteq> []) (split_when isSlugSeparator slug)))"

definition isSlugChar :: "char \<Rightarrow> bool" where
  "isSlugChar c = (let n = charCode c in (97 \<le> n \<and> n \<le> 122) \<or> (48 \<le> n \<and> n \<le> 57))"

definition slugify :: "string \<Rightarrow> string" where
  "slugify v = filter isSlugChar (toLowerCase v)"

definition genericPhrases :: "string list" where
  "genericPhrases =
     [''various companies'', ''various employers'', ''multiple companies'',
      ''multiple employers'', ''several companies'', ''several employers'',
      ''numerous companies'', ''numerous employers'', ''diverse companies'',
      ''diverse employers'', ''leading company'', ''leading employer'', ''top company'',
      ''top employer'', ''major company'', ''major employer'', ''global company'',
      ''global employer'', ''confidential company'', ''confidential employer'',
      ''stealth company'', ''stealth employer'']"

text \<open>
  The test of \<open>/\b(n\/a|na|tbd|tba|unknown|unspecified|not provided|not specified)\b/\<close>:
  at some position one of the alternatives occurs between two word boundaries. A word
  boundary lies between a word character (letter, digit, underscore) and a character that
  is none, the two ends of the string counting as none.
\<close>

definition isWordChar :: "char \<Rightarrow> bool" where
  "isWordChar c =
     (let n = charCode c
      in (48 \<le> n \<and> n \<le> 57) \<or> (65 \<le> n \<and> n \<le> 90) \<or> n = 95 \<or> (97 \<le> n \<and> n \<le> 122))"

definition wordBoundary :: "string \<Rightarrow> nat \<Rightarrow> bool" where
  "wordBoundary s i =
     ((0 < i \<and> i \<le> length s \<and> isWordChar (s ! (i - 1))) \<noteq> (i < length s \<and> isWordChar (s ! i)))"

definition placeholderTokens :: "string list" where
  "placeholderTokens =
     [''n/a'', ''na'', ''tbd'', ''tba'', ''unknown'', ''unspecified'', ''not provided'',
      ''not specified'']"

definition tokenAt :: "string \<Rightarrow> nat \<Rightarrow> string \<Rightarrow> bool" where
  "tokenAt s i w =
     (wordBoundary s i \<and> startsWith (drop i s) w \<and> wordBoundary s (i + length w))"

definition hasPlaceholderToken :: "string \<Rightarrow> bool" where
  "hasPlaceholderToken s =
     list_ex (\<lambda>i. list_ex (\<lambda>w. tokenAt s i w) placeholderTokens) [0..<Suc (length s)]"

text \<open>\<open>/^(company|employer|organisation|organization)$/i\<close>: the whole string is one of
  the four words, whatever the case of its ASCII letters.\<close>

definition isBareEmployerWord :: "string \<Rightarrow> bool" where
  "isBareEmployerWord s =
     (toLowerCase s \<in> set [''company'', ''employer'', ''organisation'', ''organization''])"

definition isGenericCompanyName :: "string \<Rightarrow> bool" where
  "isGenericCompanyName nm =
     (let normalised = toLowerCase (trim nm)
      in if normalised = [] then True
         else if length normalised \<le> 2 then True
         else if list_ex (\<lambda>phrase. includes' normalised phrase) genericPhrases then True
         else if hasPlaceholderToken normalised then True
         else if isBareEmployerWord normalised then True
         else False)"

text \<open>The segment after the first path segment equal to \<open>company\<close>, when there is one
  (\<open>findIndex\<close>, then the next index).\<close>

fun segmentAfterCompany :: "string list \<Rightarrow> string option" where
  "segmentAfterCompany [] = None"
| "segmentAfterCompany (s # rest) =
     (if s = ''company'' then (case rest of [] \<Rightarrow> None | n # _ \<Rightarrow> Some n)
      else segmentAfterCompany rest)"

text \<open>\<open>xs[0]\<close> where an absent element is only tested for truth: read as the empty string.\<close>

definition firstOrEmpty :: "string list \<Rightarrow> string" where
  "firstOrEmpty xs = (case xs of [] \<Rightarrow> [] | x # _ \<Rightarrow> x)"

definition firstSegmentTitle :: "string list \<Rightarrow> string option" where
  "firstSegmentTitle pathSegments =
     (case pathSegments of [] \<Rightarrow> None | seg # _ \<Rightarrow> Some (toTitleCase seg))"

definition blockedRoots :: "string list" where
  "blockedRoots =
     [''greenhouse'', ''lever'', ''ashbyhq'', ''wellfound'', ''linkedin'', ''indeed'',
      ''ziprecruiter'', ''glassdoor'', ''workable'', ''smartrecruiters'', ''jobvite'',
      ''myworkdayjobs'', ''jobs'']"

text \<open>\<open>deriveCompanyFromLink\<close>: \<open>None\<close> is \<open>undefined\<close>. The blocks for workable,
  wellfound and myworkdayjobs return only when their inner test holds and fall through to
  the later blocks otherwise.\<close>

definition deriveCompanyFromLink :: "platform \<Rightarrow> string \<Rightarrow> string option" where
  "deriveCompanyFromLink P link =
     (case URL_parse P link of
        None \<Rightarrow> None
      | Some u \<Rightarrow>
         (let host = toLowerCase (hostname u);
              pathSegments = filter (\<lambda>s. s \<noteq> []) (split_on CHR ''/'' (pathname u));
              subdomain = firstOrEmpty (split_on CHR ''.'' host);
              trimmedHost = (if startsWith host ''www.'' then drop 4 host else host);
              hostParts = split_on CHR ''.'' trimmedHost;
              domainRoot = (if length hostParts > 2 then hostParts ! (length hostParts - 2)
                            else firstOrEmpty hostParts)
          in if includes' host ''greenhouse.io'' then firstSegmentTitle pathSegments
             else if includes' host ''lever.co'' then firstSegmentTitle pathSegments
             else if includes' host ''ashbyhq.com'' then firstSegmentTitle pathSegments
             else if includes' host ''workable.com'' \<and> subdomain \<noteq> []
                     \<and> subdomain \<noteq> ''www'' \<and> subdomain \<noteq> ''jobs''
               then Some (toTitleCase subdomain)
             else if includes' host ''smartrecruiters.com'' then firstSegmentTitle pathSegments
             else if includes' host ''jobvite.com'' then firstSegmentTitle pathSegments
             else if includes' host ''wellfound.com''
                     \<and> orEmpty (segmentAfterCompany pathSegments) \<noteq> []
               then Some (toTitleCase (orEmpty (segmentAfterCompany pathSegments)))
             else if includes' host ''myworkdayjobs.com'' \<and> pathSegments \<noteq> []
               then Some (toTitleCase (firstOrEmpty pathSegments))
             else if list_ex (\<lambda>aggregatorHost. includes' host aggregatorHost) (AGGREGATOR_HOSTS P)
                     \<or> includes' host ''ziprecruiter.com''
               then None
             else if domainRoot \<in> set blockedRoots then None
             else if domainRoot \<noteq> [] then Some (toTitleCase domainRoot)
             else None))"

text \<open>The field \<open>keywords\<close> is written \<open>bucket_keywords\<close>.\<close>

record CompanyBucket =
  bucket_keywords :: "string list"
  companies :: "string list"

definition COMPANY_BUCKETS :: "CompanyBucket list" where
  "COMPANY_BUCKETS =
     [\<lparr>bucket_keywords = [''data'', ''analytics'', ''machine learning'', ''ml'', ''ai'', ''scientist''],
       companies = [''Snowflake'', ''Databricks'', ''Palantir'', ''Anthropic'', ''Airbnb'']\<rparr>,
      \<lparr>bucket_keywords = [''frontend'', ''javascript'', ''typescript'', ''react'', ''ui'', ''web''],
       companies = [''Vercel'', ''Netlify'', ''Canva'', ''Shopify'', ''Pinterest'']\<rparr>,
      \<lparr>bucket_keywords = [''backend'', ''api'', ''server'', ''distributed'', ''platform''],
       companies = [''Cloudflare'', ''HashiCorp'', ''Twilio'', ''DigitalOcean'', ''MongoDB'']\<rparr>,
      \<lparr>bucket_keywords = [''devops'', ''infrastructure'', ''sre'', ''platform engineering'', ''observability''],
       companies = [''Datadog'', ''PagerDuty'', ''GitHub'', ''GitLab'', ''New Relic'']\<rparr>,
      \<lparr>bucket_keywords = [''mobile'', ''android'', ''ios'', ''swift'', ''kotlin''],
       companies = [''Spotify'', ''Duolingo'', ''Lyft'', ''Uber'', ''Headspace'']\<rparr>,
      \<lparr>bucket_keywords = [''security'', ''infosec'', ''appsec'', ''threat'', ''soc'', ''zero trust''],
       companies = [''Okta'', ''CrowdStrike'', ''Snyk'', ''Cloudflare'', ''1Password'']\<rparr>,
      \<lparr>bucket_keywords = [''product manager'', ''product management'', ''pm''],
       companies = [''Atlassian'', ''Notion'', ''Asana'', ''Monday.com'', ''Linear'']\<rparr>,
      \<lparr>bucket_keywords = [''designer'', ''design'', ''ux'', ''ui'', ''product design''],
       companies = [''Figma'', ''Adobe'', ''Canva'', ''IDEO'', ''InVision'']\<rparr>,
      \<lparr>bucket_keywords = [''marketing'', ''growth'', ''content'', ''brand'', ''demand''],
       companies = [''HubSpot'', ''Klaviyo'', ''Mailchimp'', ''Sprout Social'', ''Canva'']\<rparr>,
      \<lparr>bucket_keywords = [''sales'', ''account executive'', ''account manager'', ''business development''],
       companies = [''Salesforce'', ''Gong'', ''Outreach'', ''HubSpot'', ''Zendesk'']\<rparr>,
      \<lparr>bucket_keywords = [''finance'', ''fintech'', ''bank'', ''financial''],
       companies = [''Stripe'', ''Plaid'', ''Square'', ''Chime'', ''Robinhood'']\<rparr>,
      \<lparr>bucket_keywords = [''health'', ''healthcare'', ''medtech'', ''clinical'', ''pharma''],
       companies = [''Teladoc'', ''Walgreens Health'', ''Johnson & Johnson'', ''Moderna'', ''One Medical'']\<rparr>,
      \<lparr>bucket_keywords = [''education'', ''edtech'', ''teacher'', ''learning''],
       companies = [''Duolingo'', ''Coursera'', ''Khan Academy'', ''Udemy'', ''Outschool'']\<rparr>,
      \<lparr>bucket_keywords = [''gaming'', ''game'', ''unity'', ''unreal''],
       companies = [''Riot Games'', ''Epic Games'', ''Blizzard Entertainment'', ''Ubisoft'', ''Supercell'']\<rparr>]"

definition DEFAULT_COMPANIES :: "string list" where
  "DEFAULT_COMPANIES =
     [''Stripe'', ''Canva'', ''Atlassian'', ''HubSpot'', ''GitLab'', ''Notion'', ''Figma'',
      ''Twilio'', ''Airbnb'', ''Spotify'']"

text \<open>\<open>hashString\<close>: after \<open>hash |= 0\<close> the accumulator is a 32-bit signed integer, so it
  is a 32-bit word, read as signed at the end; \<open>(hash << 5) - hash + code\<close> wraps.\<close>

definition hashStep :: "32 word \<Rightarrow> char \<Rightarrow> 32 word" where
  "hashStep h c = push_bit 5 h - h + of_nat (charCode c)"

definition hashString :: "string \<Rightarrow> int" where
  "hashString v = sint (foldl hashStep 0 v)"

definition pickSampleCompany :: "JobQuery \<Rightarrow> nat \<Rightarrow> string" where
  "pickSampleCompany q index =
     (let haystack = toLowerCase (title q @ '' '' @ query q)
      in case find (\<lambda>bucket. list_ex (\<lambda>keyword. includes' haystack keyword) (bucket_keywords bucket))
                COMPANY_BUCKETS of
           Some bucket \<Rightarrow>
             (let offset = abs (hashString haystack);
                  position = nat ((offset + int index) mod int (length (companies bucket)))
              in companies bucket ! position)
         | None \<Rightarrow>
             (let fallbackPosition =
                    nat ((abs (hashString haystack) + int index) mod int (length DEFAULT_COMPANIES))
              in DEFAULT_COMPANIES ! fallbackPosition))"

definition normaliseCompanyName :: "platform \<Rightarrow> string option \<Rightarrow> string \<Rightarrow> JobQuery \<Rightarrow> nat \<Rightarrow> string" where
  "normaliseCompanyName P rawCompany link q index =
     (let trimmed = map_option trim rawCompany
      in if orEmpty trimmed \<noteq> [] \<and> \<not> isGenericCompanyName (orEmpty trimmed) then orEmpty trimmed
         else
           let derived = deriveCompanyFromLink P link
           in if orEmpty derived \<noteq> [] then orEmpty derived
              else pickSampleCompany q index)"

section \<open>Links\<close>

text \<open>\<open>ensureCompanyLink\<close>. Its first step, \<open>fallbackLinkFor\<close>, builds the fallback link
  before the \<open>try\<close>, so a failure of \<open>selectSearchProvider\<close> leaves the function; a
  failure of \<open>new URL\<close> is caught and gives the fallback link. \<open>a ?? b\<close> is \<open>b\<close> only
  when \<open>a\<close> is \<open>undefined\<close>.\<close>

definition orElse :: "string option \<Rightarrow> string \<Rightarrow> string" where
  "orElse a b = (case a of None \<Rightarrow> b | Some v \<Rightarrow> v)"

definition fallbackLinkFor ::
  "platform \<Rightarrow> string \<Rightarrow> JobQuery \<Rightarrow> string option \<Rightarrow> bool \<Rightarrow> nat \<Rightarrow> error + (string \<times> string)" where
  "fallbackLinkFor P company fallbackQuery location remote index =
     (let seed = hashString (title fallbackQuery @ '':'' @ query fallbackQuery @ '':'' @ decimal (int index))
      in buildSearchLink P fallbackQuery (Some company) location remote seed)"

definition ensureCompanyLink ::
  "platform \<Rightarrow> string option \<Rightarrow> string \<Rightarrow> JobQuery \<Rightarrow> string option \<Rightarrow> bool \<Rightarrow> nat
     \<Rightarrow> string option \<Rightarrow> error + (string \<times> string)" where
  "ensureCompanyLink P rawLink company fallbackQuery location remote index modelSource =
     (case fallbackLinkFor P company fallbackQuery location remote index of
        Inl e \<Rightarrow> Inl e
      | Inr fallbackLink \<Rightarrow>
         (if orEmpty rawLink = [] \<or> \<not> startsWith (orEmpty rawLink) ''https://''
          then Inr fallbackLink
          else
            (case URL_parse P (orEmpty rawLink) of
               None \<Rightarrow> Inr fallbackLink
             | Some parsed \<Rightarrow>
                (let provider = findProviderForHost P (hostname parsed)
                 in if company = []
                    then Inr (orEmpty rawLink,
                           orElse modelSource (orElse (map_option name provider) (snd fallbackLink)))
                    else
                      let companySlug = slugify company;
                          linkIncludesCompany =
                            (if companySlug \<noteq> [] then includes' (toLowerCase (orEmpty rawLink)) companySlug
                             else False)
                      in (case provider of
                            Some prov \<Rightarrow>
                              if linkIncludesCompany
                              then Inr (orEmpty rawLink, orElse modelSource (name prov))
                              else Inr (buildUrl prov fallbackQuery (Some company) location remote,
                                     name prov)
                          | None \<Rightarrow>
                              if linkIncludesCompany
                              then Inr (orEmpty rawLink, orElse modelSource ''AI curated'')
                              else Inr (orEmpty rawLink, orElse modelSource (snd fallbackLink)))))))"

section \<open>Postings\<close>

text \<open>The fields \<open>id\<close> and \<open>title\<close> are primed: \<open>id\<close> is the identity function of HOL
  and \<open>title\<close> the field of \<open>JobQuery\<close>.\<close>

record JobPosting =
  id' :: string
  title' :: string
  company :: "string option"
  location :: "string option"
  salary :: "string option"
  description :: "string option"
  url :: string
  source :: "string option"
  postedAt :: "string option"

definition fallbackPosting ::
  "platform \<Rightarrow> int \<Rightarrow> string option \<Rightarrow> bool \<Rightarrow> string \<Rightarrow> JobQuery \<Rightarrow> nat \<Rightarrow> nat \<Rightarrow> JobPosting" where
  "fallbackPosting P now loc remote locationLabel q queryIndex offset =
     (let comp = pickSampleCompany q (queryIndex + offset);
          seed = hashString (title q @ '':'' @ query q @ '':'' @ decimal (int queryIndex) @ '':''
                   @ decimal (int offset));
          provider = SEARCH_PROVIDERS P ! nat (abs seed mod int (length (SEARCH_PROVIDERS P)));
          link = buildUrl provider q (Some comp) loc remote
      in \<lparr>id' = ''fallback-'' @ decimal (int queryIndex) @ ''-'' @ decimal (int offset) @ ''-''
                 @ decimal now,
          title' = title q @ '' at '' @ comp,
          company = Some comp,
          location = Some locationLabel,
          salary = None,
          description = Some (''Browse '' @ comp @ '' and peer organisations hiring for '' @ title q
            @ ''. This search stays focused on '' @ (if remote then ''remote-first'' else locationLabel)
            @ '' roles.''),
          url = link,
          source = Some (name provider),
          postedAt = None\<rparr>)"

text \<open>\<open>buildFallbackJobs\<close>; \<open>now\<close> is its one reading of \<open>Date.now()\<close>.\<close>

definition buildFallbackJobs ::
  "platform \<Rightarrow> int \<Rightarrow> JobQuery list \<Rightarrow> string option \<Rightarrow> bool \<Rightarrow> JobPosting list" where
  "buildFallbackJobs P now queries loc remote =
     (let locationLabel = (if remote then ''Remote''
                           else if orEmpty loc \<noteq> [] then orEmpty loc else ''Flexible location'');
          resultsPerQuery = max (length (SEARCH_PROVIDERS P)) 5
      in concat (map (\<lambda>(queryIndex, q).
                   map (\<lambda>offset. fallbackPosting P now loc remote locationLabel q queryIndex offset)
                     [0..<resultsPerQuery])
                 (enumerate 0 queries)))"

section \<open>The job synthesis engine\<close>

text \<open>What the call of the model gives: it fails (the promise rejects, or reading the
  response throws), or it answers with a text that may be \<open>undefined\<close>.\<close>

datatype ai_reply = CallFails | Reply "string option"

text \<open>
  What one run of the engine meets outside of its arguments: the configured API key, the
  reply of the model to the prompt, and the clock (\<open>now_at i\<close> is the reading of
  \<open>Date.now()\<close> while the posting of index \<open>i\<close> is assembled, \<open>now_fallback\<close> the one reading
  of \<open>buildFallbackJobs\<close>).
\<close>

record runtime =
  GEMINI_KEY :: string
  generateContent :: ai_reply
  now_at :: "nat \<Rightarrow> int"
  now_fallback :: int

text \<open>\<open>getModel\<close> throws without a key. Its cache only keeps a model that was built with
  a key, so it does not change the outcome.\<close>

definition getModel :: "runtime \<Rightarrow> error + unit" where
  "getModel R = (if GEMINI_KEY R = [] then Inl ModelNotConfigured else Inr ())"

text \<open>\<open>typeof job.key === 'string'\<close>: only an object can hold a string under one of the
  keys read here.\<close>

definition stringProp :: "json \<Rightarrow> string \<Rightarrow> string option" where
  "stringProp j k =
     (case j of
        JObject kvs \<Rightarrow> (case map_of kvs k of Some (JString s) \<Rightarrow> Some s | _ \<Rightarrow> None)
      | _ \<Rightarrow> None)"

text \<open>\<open>source.replace(/gemini/gi, 'AI curated')\<close>.\<close>

fun replaceGemini :: "string \<Rightarrow> string" where
  "replaceGemini [] = []"
| "replaceGemini (c # cs) =
     (if toLowerCase (take 6 (c # cs)) = ''gemini'' then ''AI curated'' @ replaceGemini (drop 5 cs)
      else c # replaceGemini cs)"

text \<open>The callback of \<open>jobs.map\<close>. Reading a property of \<open>null\<close>, or of the \<open>undefined\<close>
  that an empty query list gives for \<open>fallbackQuery\<close>, throws a TypeError.\<close>

definition assemblePosting ::
  "platform \<Rightarrow> runtime \<Rightarrow> JobQuery list \<Rightarrow> string option \<Rightarrow> bool \<Rightarrow> nat \<Rightarrow> json \<Rightarrow> error + JobPosting" where
  "assemblePosting P R queries loc remote index job =
     (if job = JNull \<or> queries = [] then Inl TypeError
      else
        let fallbackQuery = queries ! (index mod length queries);
            rawLink = stringProp job ''link'';
            derivedLocation =
              (if trim (orEmpty (stringProp job ''location'')) \<noteq> [] then stringProp job ''location''
               else if remote then Some ''Remote'' else loc);
            comp = normaliseCompanyName P (stringProp job ''company'') (orEmpty rawLink) fallbackQuery index
        in case ensureCompanyLink P rawLink comp fallbackQuery loc remote index (stringProp job ''source'') of
             Inl e \<Rightarrow> Inl e
           | Inr (link, src) \<Rightarrow>
              (let displaySource = (if src \<noteq> [] then replaceGemini src else ''AI curated'')
               in Inr \<lparr>id' = (if orEmpty (stringProp job ''id'') \<noteq> [] then orEmpty (stringProp job ''id'')
                              else ''gemini-'' @ decimal (now_at R index) @ ''-'' @ decimal (int index)),
                       title' = (if orEmpty (stringProp job ''title'') \<noteq> [] then orEmpty (stringProp job ''title'')
                                 else title fallbackQuery),
                       company = Some comp,
                       location = derivedLocation,
                       salary = stringProp job ''salary'',
                       description = Some
                         (if orEmpty (stringProp job ''description'') \<noteq> []
                          then orEmpty (stringProp job ''description'')
                          else ''Review opportunities that align with '' @ title fallbackQuery @ ''.''),
                       url = link,
                       source = Some displaySource,
                       postedAt = None\<rparr>))"

fun mapIndexed :: "(nat \<Rightarrow> 'a \<Rightarrow> error + 'b) \<Rightarrow> nat \<Rightarrow> 'a list \<Rightarrow> error + 'b list" where
  "mapIndexed f i [] = Inr []"
| "mapIndexed f i (x # xs) =
     (case f i x of
        Inl e \<Rightarrow> Inl e
      | Inr y \<Rightarrow> (case mapIndexed f (Suc i) xs of Inl e \<Rightarrow> Inl e | Inr ys \<Rightarrow> Inr (y # ys)))"

text \<open>The first half of the \<open>try\<close> block of \<open>generateJobsWithGemini\<close>, up to the
  value of \<open>jobs\<close>: \<open>Inl\<close> is what it throws. An \<open>undefined\<close> text takes the \<open>!text\<close>
  branch of \<open>safeJsonParse\<close>; \<open>parsed.jobs\<close> of \<open>null\<close> throws.\<close>

definition suggestedJobs :: "platform \<Rightarrow> runtime \<Rightarrow> error + json list" where
  "suggestedJobs P R =
     (case generateContent R of
        CallFails \<Rightarrow> Inl AiCallFailed
      | Reply textResponse \<Rightarrow>
         (case (case textResponse of None \<Rightarrow> Inl EmptyResponse | Some t \<Rightarrow> safeJsonParse P t) of
            Inl e \<Rightarrow> Inl e
          | Inr parsed \<Rightarrow>
             (if parsed = JNull then Inl TypeError
              else Inr (case parsed of
                          JObject kvs \<Rightarrow>
                            (case map_of kvs ''jobs'' of Some (JArray js) \<Rightarrow> js | _ \<Rightarrow> [])
                        | _ \<Rightarrow> []))))"

text \<open>The whole \<open>try\<close> block: \<open>Inl\<close> is what the \<open>catch\<close> receives.\<close>

definition synthesise ::
  "platform \<Rightarrow> runtime \<Rightarrow> JobQuery list \<Rightarrow> string option \<Rightarrow> bool \<Rightarrow> error + JobPosting list" where
  "synthesise P R queries loc remote =
     (case suggestedJobs P R of
        Inl e \<Rightarrow> Inl e
      | Inr jobs \<Rightarrow>
         (if jobs = [] then Inr (buildFallbackJobs P (now_fallback R) queries loc remote)
          else
            (case mapIndexed (assemblePosting P R queries loc remote) 0 jobs of
               Inl e \<Rightarrow> Inl e
             | Inr postings \<Rightarrow> Inr (filter (\<lambda>job. url job \<noteq> []) postings))))"

text \<open>\<open>generateJobsWithGemini\<close>: \<open>getModel()\<close> is called before the \<open>try\<close>; whatever the
  \<open>try\<close> block throws is caught and answered with the fallback postings.\<close>

definition generateJobsWithGemini ::
  "platform \<Rightarrow> runtime \<Rightarrow> JobQuery list \<Rightarrow> string option \<Rightarrow> bool \<Rightarrow> error + JobPosting list" where
  "generateJobsWithGemini P R queries loc remote =
     (case getModel R of
        Inl e \<Rightarrow> Inl e
      | Inr generativeModel \<Rightarrow>
         (case synthesise P R queries loc remote of
            Inl e \<Rightarrow> Inr (buildFallbackJobs P (now_fallback R) queries loc remote)
          | Inr postings \<Rightarrow> Inr postings))"

section \<open>A platform and runs for the examples\<close>

text \<open>
  The theorems below hold for every platform. The examples run on this one:
  \<open>URLSearchParams.toString\<close> is the serializer of the URL standard for
  \<open>application/x-www-form-urlencoded\<close> (a space becomes \<open>+\<close>; letters, digits and
  \<open>* - . _\<close> stay; every other byte of the UTF-8 form is percent-encoded);
  \<open>new URL\<close> is given on links of the plain shape \<open>https://host/path?query#fragment\<close>
  with a lower-case host; \<open>JSON.parse\<close> is given by its results on the texts of the
  examples.
\<close>

definition hexDigit :: "nat \<Rightarrow> char" where
  "hexDigit d = ''0123456789ABCDEF'' ! d"

definition utf8Bytes :: "char \<Rightarrow> nat list" where
  "utf8Bytes c = (let n = charCode c in if n < 128 then [n] else [192 + n div 64, 128 + n mod 64])"

definition formByte :: "nat \<Rightarrow> string" where
  "formByte b =
     (if b = 32 then ''+''
      else if (48 \<le> b \<and> b \<le> 57) \<or> (65 \<le> b \<and> b \<le> 90) \<or> (97 \<le> b \<and> b \<le> 122)
              \<or> b = 42 \<or> b = 45 \<or> b = 46 \<or> b = 95
      then [char_of b]
      else [CHR ''%'', hexDigit (b div 16), hexDigit (b mod 16)])"

definition formComponent :: "string \<Rightarrow> string" where
  "formComponent s = concat (map formByte (concat (map utf8Bytes s)))"

definition formUrlencode :: "(string \<times> string) list \<Rightarrow> string" where
  "formUrlencode ps = join ''&'' (map (\<lambda>(k, v). formComponent k @ ''='' @ formComponent v) ps)"

definition plainURL :: "string \<Rightarrow> URL option" where
  "plainURL link =
     (if \<not> startsWith link ''https://'' then None
      else
        let rest = drop 8 link;
            host = takeWhile (\<lambda>c. c \<notin> set ''/?#'') rest;
            path = takeWhile (\<lambda>c. c \<notin> set ''?#'') (drop (length host) rest)
        in if host = [] then None
           else Some \<lparr>hostname = host, pathname = (if path = [] then ''/'' else path)\<rparr>)"

definition greenhouseReply :: string where
  "greenhouseReply =
     ''{\"jobs\":[{\"title\":\"SRE\",\"link\":\"https://boards.greenhouse.io/unknown/jobs/123\"}]}''"

definition greenhouseJobs :: json where
  "greenhouseJobs =
     JObject [(''jobs'', JArray
       [JObject [(''title'', JString ''SRE''),
                 (''link'', JString ''https://boards.greenhouse.io/unknown/jobs/123'')]])]"

definition repeatedReply :: string where
  "repeatedReply =
     ''{\"jobs\":[{\"title\":\"Designer\",\"company\":\"Canva\",\"link\":\"https://www.canva.com/careers\"},{\"title\":\"Designer\",\"company\":\"Canva\",\"link\":\"https://www.canva.com/careers\"}]}''"

definition repeatedJobs :: json where
  "repeatedJobs =
     JObject [(''jobs'', JArray
       [JObject [(''title'', JString ''Designer''), (''company'', JString ''Canva''),
                 (''link'', JString ''https://www.canva.com/careers'')],
        JObject [(''title'', JString ''Designer''), (''company'', JString ''Canva''),
                 (''link'', JString ''https://www.canva.com/careers'')]])]"

definition sameIdReply :: string where
  "sameIdReply =
     ''{\"jobs\":[{\"id\":\"job-1\",\"company\":\"Canva\",\"link\":\"https://www.canva.com/careers\"},{\"id\":\"job-1\",\"company\":\"Figma\",\"link\":\"https://www.figma.com/careers\"}]}''"

definition sameIdJobs :: json where
  "sameIdJobs =
     JObject [(''jobs'', JArray
       [JObject [(''id'', JString ''job-1''), (''company'', JString ''Canva''),
                 (''link'', JString ''https://www.canva.com/careers'')],
        JObject [(''id'', JString ''job-1''), (''company'', JString ''Figma''),
                 (''link'', JString ''https://www.figma.com/careers'')]])]"

definition exampleJSON :: "string \<Rightarrow> json option" where
  "exampleJSON = map_of
     [(''{\"a\":1}'', JObject [(''a'', JNumber 1)]),
      (greenhouseReply, greenhouseJobs),
      (repeatedReply, repeatedJobs),
      (sameIdReply, sameIdJobs)]"

definition examplePlatform :: platform where
  "examplePlatform =
     \<lparr>JSON_parse = exampleJSON, URL_parse = plainURL, URLSearchParams_toString = formUrlencode\<rparr>"

definition backendQuery :: JobQuery where
  "backendQuery = \<lparr>title = ''Backend Engineer'', query = ''backend engineer node''\<rparr>"

text \<open>A run without an API key, and runs with a key in which the model answers with a
  given text; the clock stands at one instant.\<close>

definition offlineRun :: runtime where
  "offlineRun =
     \<lparr>GEMINI_KEY = [], generateContent = CallFails,
      now_at = (\<lambda>i. 1700000000000), now_fallback = 1700000000000\<rparr>"

definition answeringRun :: "string \<Rightarrow> runtime" where
  "answeringRun reply =
     \<lparr>GEMINI_KEY = ''key'', generateContent = Reply (Some reply),
      now_at = (\<lambda>i. 1700000000000), now_fallback = 1700000000000\<rparr>"

section \<open>Properties\<close>

subsection \<open>Resume truncation\<close>

text \<open>
  C9: \<open>truncateContent\<close> returns its input unchanged when it has at most 8000 characters,
  and otherwise exactly the first 8000 characters followed by the ellipsis \<open>...\<close>: the
  ellipsis is appended in the second case and only there.
\<close>

theorem truncateContent_spec:
  "(length s \<le> 8000 \<longrightarrow> truncateContent s = s)
   \<and> (8000 < length s \<longrightarrow> truncateContent s = take 8000 s @ ''...'')"
  by (simp add: truncateContent_def MAX_RESUME_LENGTH_def)

theorem truncateContent_spec_witness:
  "length ''resume'' \<le> 8000 \<and> truncateContent ''resume'' = ''resume''
   \<and> 8000 < length (replicate 8001 CHR ''a'')
   \<and> truncateContent (replicate 8001 CHR ''a'') = replicate 8000 CHR ''a'' @ ''...''"
  using truncateContent_spec [of "''resume''"]
    truncateContent_spec [of "replicate 8001 CHR ''a''"]
  by simp

text \<open>
  C10: \<open>truncateContent\<close> is idempotent: truncating an already truncated string gives the
  same string again.
\<close>

theorem truncateContent_idempotent:
  "truncateContent (truncateContent s) = truncateContent s"
  by (simp add: truncateContent_def MAX_RESUME_LENGTH_def)

subsection \<open>Provider selection\<close>

lemma SEARCH_PROVIDERS_length: "length (SEARCH_PROVIDERS P) = 5"
  by (simp add: SEARCH_PROVIDERS_def)

lemma selectSearchProvider_eq:
  "selectSearchProvider P seed = Inr (SEARCH_PROVIDERS P ! nat (abs seed mod 5))"
  by (simp add: selectSearchProvider_def SEARCH_PROVIDERS_length Let_def) (simp add: SEARCH_PROVIDERS_def)

lemma selected_provider_known:
  "selectSearchProvider P seed = Inr provider \<Longrightarrow> provider \<in> set (SEARCH_PROVIDERS P)"
proof -
  assume "selectSearchProvider P seed = Inr provider"
  then have "provider = SEARCH_PROVIDERS P ! nat (abs seed mod 5)"
    by (simp add: selectSearchProvider_eq)
  moreover have "nat (abs seed mod 5) < length (SEARCH_PROVIDERS P)"
    by (simp add: SEARCH_PROVIDERS_length)
  ultimately show ?thesis
    using nth_mem by blast
qed

text \<open>
  C7, as amended: \<open>selectSearchProvider\<close> picks the provider at index \<open>abs(seed) mod n\<close>,
  \<open>n\<close> the number of providers; so it depends only on \<open>abs(seed) mod n\<close>: two seeds whose
  absolute values are congruent modulo \<open>n\<close> select the same provider, in particular two
  congruent seeds of the same sign.
\<close>

theorem selectSearchProvider_spec:
  "selectSearchProvider P seed
     = Inr (SEARCH_PROVIDERS P ! nat (abs seed mod int (length (SEARCH_PROVIDERS P))))
   \<and> (abs seed mod int (length (SEARCH_PROVIDERS P)) = abs seed' mod int (length (SEARCH_PROVIDERS P))
        \<longrightarrow> selectSearchProvider P seed = selectSearchProvider P seed')
   \<and> (0 \<le> seed \<and> 0 \<le> seed'
        \<and> seed mod int (length (SEARCH_PROVIDERS P)) = seed' mod int (length (SEARCH_PROVIDERS P))
        \<longrightarrow> selectSearchProvider P seed = selectSearchProvider P seed')
   \<and> (seed \<le> 0 \<and> seed' \<le> 0
        \<and> seed mod int (length (SEARCH_PROVIDERS P)) = seed' mod int (length (SEARCH_PROVIDERS P))
        \<longrightarrow> selectSearchProvider P seed = selectSearchProvider P seed')"
proof -
  have len: "int (length (SEARCH_PROVIDERS P)) = 5"
    by (simp add: SEARCH_PROVIDERS_length)
  have pick: "selectSearchProvider P s = Inr (SEARCH_PROVIDERS P ! nat (abs s mod 5))" for s
    by (rule selectSearchProvider_eq)
  have same: "selectSearchProvider P a = selectSearchProvider P b"
    if "abs a mod 5 = abs b mod 5" for a b
    using that by (simp only: pick)
  have pos: "abs a mod 5 = abs b mod 5" if "0 \<le> a \<and> 0 \<le> b \<and> a mod 5 = b mod 5" for a b :: int
    using that by simp
  have neg: "abs a mod 5 = abs b mod 5" if "a \<le> 0 \<and> b \<le> 0 \<and> a mod 5 = b mod 5" for a b :: int
  proof -
    have "(- a) mod 5 = (- (a mod 5)) mod 5"
      by (simp add: mod_minus_eq)
    also have "\<dots> = (- (b mod 5)) mod 5"
      using that by simp
    also have "\<dots> = (- b) mod 5"
      by (simp add: mod_minus_eq)
    finally show ?thesis
      using that by simp
  qed
  show ?thesis
    unfolding len
  proof (intro conjI impI)
    show "selectSearchProvider P seed = Inr (SEARCH_PROVIDERS P ! nat (abs seed mod 5))"
      by (rule pick)
  next
    assume "abs seed mod 5 = abs seed' mod 5"
    then show "selectSearchProvider P seed = selectSearchProvider P seed'"
      by (rule same)
  next
    assume "0 \<le> seed \<and> 0 \<le> seed' \<and> seed mod 5 = seed' mod 5"
    then show "selectSearchProvider P seed = selectSearchProvider P seed'"
      by (intro same pos)
  next
    assume "seed \<le> 0 \<and> seed' \<le> 0 \<and> seed mod 5 = seed' mod 5"
    then show "selectSearchProvider P seed = selectSearchProvider P seed'"
      by (intro same neg)
  qed
qed

theorem selectSearchProvider_spec_witness:
  "abs 7 mod int (length (SEARCH_PROVIDERS examplePlatform))
     = abs (- 12) mod int (length (SEARCH_PROVIDERS examplePlatform))
   \<and> selectSearchProvider examplePlatform 7 = selectSearchProvider examplePlatform (- 12)
   \<and> map_sum id name (selectSearchProvider examplePlatform 7) = Inr ''Glassdoor search''"
proof -
  have h: "abs 7 mod int (length (SEARCH_PROVIDERS examplePlatform))
     = abs (- 12) mod int (length (SEARCH_PROVIDERS examplePlatform))"
    by (simp add: SEARCH_PROVIDERS_length)
  have eq: "selectSearchProvider examplePlatform 7 = selectSearchProvider examplePlatform (- 12)"
    using selectSearchProvider_spec [of examplePlatform 7 "- 12"] h by (elim conjE) (erule mp)
  have n: "map_sum id name (selectSearchProvider examplePlatform 7) = Inr ''Glassdoor search''"
    by (simp add: selectSearchProvider_eq) (simp add: SEARCH_PROVIDERS_def)
  show ?thesis
    by (intro conjI) (rule h eq n)+
qed

text \<open>
  C7 as stated fails: the seeds \<open>1\<close> and \<open>-4\<close> are congruent modulo the number of
  providers (their difference is 5), and they select different providers, since
  \<open>abs(1) mod 5 = 1\<close> and \<open>abs(-4) mod 5 = 4\<close>.
\<close>

theorem selectSearchProvider_congruent_counterexample:
  "int (length (SEARCH_PROVIDERS examplePlatform)) dvd 1 - (- 4)
   \<and> (1::int) mod int (length (SEARCH_PROVIDERS examplePlatform))
       = (- 4) mod int (length (SEARCH_PROVIDERS examplePlatform))
   \<and> map_sum id name (selectSearchProvider examplePlatform 1) = Inr ''JobStreet search''
   \<and> map_sum id name (selectSearchProvider examplePlatform (- 4)) = Inr ''Indeed search''"
proof -
  have a: "map_sum id name (selectSearchProvider examplePlatform 1) = Inr ''JobStreet search''"
    by (simp add: selectSearchProvider_eq) (simp add: SEARCH_PROVIDERS_def)
  have b: "map_sum id name (selectSearchProvider examplePlatform (- 4)) = Inr ''Indeed search''"
    by (simp add: selectSearchProvider_eq) (simp add: SEARCH_PROVIDERS_def)
  have c: "(1::int) mod int (length (SEARCH_PROVIDERS examplePlatform))
     = (- 4) mod int (length (SEARCH_PROVIDERS examplePlatform))"
    by (simp add: SEARCH_PROVIDERS_length)
  have d: "int (length (SEARCH_PROVIDERS examplePlatform)) dvd 1 - (- 4)"
    by (simp add: SEARCH_PROVIDERS_length)
  show ?thesis
    by (intro conjI) (rule a b c d)+
qed

subsection \<open>Response parser\<close>

lemma indexOf_ge: "- 1 \<le> indexOf s c"
  by (induction s) (auto simp: Let_def)

lemma indexOf_absent: "indexOf s c = - 1 \<longleftrightarrow> c \<notin> set s"
proof (induction s)
  case Nil
  then show ?case by simp
next
  case (Cons x xs)
  have "indexOf xs c + 1 \<noteq> - 1"
    using indexOf_ge [of xs c] by linarith
  with Cons show ?case
    by (auto simp: Let_def)
qed

lemma indexOf_is_first:
  "indexOf s c = int i \<Longrightarrow> i < length s \<and> s ! i = c \<and> (\<forall>j<i. s ! j \<noteq> c)"
proof (induction s arbitrary: i)
  case Nil
  then show ?case by simp
next
  case (Cons x xs)
  show ?case
  proof (cases "x = c")
    case True
    with Cons.prems show ?thesis by simp
  next
    case False
    with Cons.prems have ne: "indexOf xs c \<noteq> - 1" and eq: "indexOf xs c + 1 = int i"
      by (auto simp: Let_def split: if_splits)
    from eq indexOf_ge [of xs c] ne obtain k where k: "i = Suc k" "indexOf xs c = int k"
      by (cases i) auto
    from Cons.IH [OF k(2)] have "k < length xs" "xs ! k = c" "\<forall>j<k. xs ! j \<noteq> c"
      by auto
    with False k show ?thesis
      by (auto simp: nth_Cons split: nat.splits)
  qed
qed

lemma lastIndexOf_ge: "- 1 \<le> lastIndexOf s c"
  by (induction s) (auto simp: Let_def)

lemma lastIndexOf_absent: "lastIndexOf s c = - 1 \<longleftrightarrow> c \<notin> set s"
proof (induction s)
  case Nil
  then show ?case by simp
next
  case (Cons x xs)
  have "lastIndexOf xs c + 1 \<noteq> - 1"
    using lastIndexOf_ge [of xs c] by linarith
  with Cons show ?case
    by (auto simp: Let_def)
qed

lemma lastIndexOf_is_last:
  "lastIndexOf s c = int i \<Longrightarrow>
     i < length s \<and> s ! i = c \<and> (\<forall>j. i < j \<and> j < length s \<longrightarrow> s ! j \<noteq> c)"
proof (induction s arbitrary: i)
  case Nil
  then show ?case by simp
next
  case (Cons x xs)
  show ?case
  proof (cases "lastIndexOf xs c = - 1")
    case True
    then have absent: "c \<notin> set xs"
      by (simp add: lastIndexOf_absent)
    from True Cons.prems have "x = c" "i = 0"
      by (auto simp: Let_def split: if_splits)
    with absent show ?thesis
      by (auto simp: nth_Cons split: nat.splits)
  next
    case False
    with Cons.prems have eq: "lastIndexOf xs c + 1 = int i"
      by (auto simp: Let_def)
    from eq lastIndexOf_ge [of xs c] False obtain k where k: "i = Suc k" "lastIndexOf xs c = int k"
      by (cases i) auto
    from Cons.IH [OF k(2)] have "k < length xs" "xs ! k = c"
      "\<forall>j. k < j \<and> j < length xs \<longrightarrow> xs ! j \<noteq> c"
      by auto
    with k show ?thesis
      by (auto simp: nth_Cons split: nat.splits)
  qed
qed

lemma safeJsonParse_cases:
  "safeJsonParse P text =
     (if CHR ''{'' \<notin> set text \<or> CHR ''}'' \<notin> set text
         \<or> lastIndexOf text CHR ''}'' \<le> indexOf text CHR ''{''
      then Inl (if text = [] then EmptyResponse else NoJsonBlock)
      else case JSON_parse P (slice text (indexOf text CHR ''{'') (lastIndexOf text CHR ''}'' + 1)) of
             None \<Rightarrow> Inl JsonSyntaxError
           | Some v \<Rightarrow> Inr v)"
  by (simp add: safeJsonParse_def Let_def indexOf_absent lastIndexOf_absent)

text \<open>
  C5: \<open>safeJsonParse\<close> looks for the first opening brace and the last closing brace
  (\<open>indexOf_is_first\<close>, \<open>lastIndexOf_is_last\<close>). It fails exactly when one of them is
  absent, or the last closing brace is at or before the first opening brace, or
  \<open>JSON.parse\<close> fails on the slice from the one to the other, both included. On
  \<open>noise {"a":1} noise\<close> it returns what \<open>JSON.parse\<close> gives for \<open>{"a":1}\<close>, the
  object with the one member \<open>a: 1\<close>; on \<open>no braces here\<close> it fails.
\<close>

theorem safeJsonParse_spec:
  "(isl (safeJsonParse P text) \<longleftrightarrow>
      (CHR ''{'' \<notin> set text \<or> CHR ''}'' \<notin> set text
       \<or> lastIndexOf text CHR ''}'' \<le> indexOf text CHR ''{''
       \<or> JSON_parse P (slice text (indexOf text CHR ''{'') (lastIndexOf text CHR ''}'' + 1)) = None))
   \<and> (JSON_parse P ''{\"a\":1}'' = Some v \<longrightarrow> safeJsonParse P ''noise {\"a\":1} noise'' = Inr v)
   \<and> isl (safeJsonParse P ''no braces here'')"
proof (intro conjI impI)
  show "isl (safeJsonParse P text) \<longleftrightarrow>
      (CHR ''{'' \<notin> set text \<or> CHR ''}'' \<notin> set text
       \<or> lastIndexOf text CHR ''}'' \<le> indexOf text CHR ''{''
       \<or> JSON_parse P (slice text (indexOf text CHR ''{'') (lastIndexOf text CHR ''}'' + 1)) = None)"
    by (simp add: safeJsonParse_cases split: option.split)
next
  assume "JSON_parse P ''{\"a\":1}'' = Some v"
  then show "safeJsonParse P ''noise {\"a\":1} noise'' = Inr v"
    by (simp add: safeJsonParse_def slice_def Let_def)
next
  show "isl (safeJsonParse P ''no braces here'')"
    by (simp add: safeJsonParse_def Let_def)
qed

theorem safeJsonParse_spec_witness:
  "JSON_parse examplePlatform ''{\"a\":1}'' = Some (JObject [(''a'', JNumber 1)])
   \<and> safeJsonParse examplePlatform ''noise {\"a\":1} noise'' = Inr (JObject [(''a'', JNumber 1)])
   \<and> isl (safeJsonParse examplePlatform ''no braces here'')"
proof -
  have h: "JSON_parse examplePlatform ''{\"a\":1}'' = Some (JObject [(''a'', JNumber 1)])"
    by (simp add: examplePlatform_def exampleJSON_def)
  show ?thesis
    using safeJsonParse_spec [of examplePlatform "''no braces here''" "JObject [(''a'', JNumber 1)]"] h
    by blast
qed

subsection \<open>Failures of the model\<close>

lemma generateJobs_without_key:
  "GEMINI_KEY R = [] \<Longrightarrow> generateJobsWithGemini P R queries loc remote = Inl ModelNotConfigured"
  by (simp add: generateJobsWithGemini_def getModel_def)

text \<open>
  C1 does not hold of the code: without an API key \<open>getModel()\<close> throws before the
  \<open>try\<close> block is entered, so the error reaches the caller instead of the fallback
  postings. Here for the query \<open>Backend Engineer\<close>, the location Berlin and no key.
\<close>

theorem generateJobs_offline_throws:
  "generateJobsWithGemini examplePlatform offlineRun [backendQuery] (Some ''Berlin'') False
     = Inl ModelNotConfigured"
  by (simp add: generateJobsWithGemini_def getModel_def offlineRun_def)

text \<open>The rest of C1 holds: with a key the engine always returns a list, and it is the
  fallback list whenever the call, the reading of the reply or the parsing fails, or the
  reply holds no posting.\<close>

lemma generateJobs_with_key_returns:
  "GEMINI_KEY R \<noteq> [] \<Longrightarrow> \<exists>postings. generateJobsWithGemini P R queries loc remote = Inr postings"
  by (simp add: generateJobsWithGemini_def getModel_def split: sum.split)

lemma generateJobs_falls_back:
  assumes "GEMINI_KEY R \<noteq> []"
    and "isl (suggestedJobs P R) \<or> suggestedJobs P R = Inr []"
  shows "generateJobsWithGemini P R queries loc remote
           = Inr (buildFallbackJobs P (now_fallback R) queries loc remote)"
  using assms
  by (auto simp: generateJobsWithGemini_def getModel_def synthesise_def isl_def split: sum.split)

lemma suggestedJobs_failures:
  "generateContent R = CallFails \<Longrightarrow> isl (suggestedJobs P R)"
  "generateContent R = Reply None \<Longrightarrow> isl (suggestedJobs P R)"
  "generateContent R = Reply (Some t) \<Longrightarrow> isl (safeJsonParse P t) \<Longrightarrow> isl (suggestedJobs P R)"
  by (auto simp: suggestedJobs_def isl_def)

subsection \<open>Links of the postings\<close>

lemma provider_url_https:
  assumes "provider \<in> set (SEARCH_PROVIDERS P)"
  shows "startsWith (buildUrl provider q c l r) ''https://''"
proof -
  have "startsWith (linkedin_buildUrl P q c l r) ''https://''"
    by (simp add: linkedin_buildUrl_def startsWith_def Let_def)
  moreover have "startsWith (jobstreet_buildUrl P q c l r) ''https://''"
    by (simp add: jobstreet_buildUrl_def startsWith_def Let_def)
  moreover have "startsWith (glassdoor_buildUrl P q c l r) ''https://''"
    by (simp add: glassdoor_buildUrl_def startsWith_def Let_def)
  moreover have "startsWith (prosple_buildUrl P q c l r) ''https://''"
    by (simp add: prosple_buildUrl_def startsWith_def Let_def)
  moreover have "startsWith (indeed_buildUrl P q c l r) ''https://''"
    by (simp add: indeed_buildUrl_def startsWith_def Let_def)
  ultimately show ?thesis
    using assms by (auto simp: SEARCH_PROVIDERS_def)
qed

lemma findProviderForHost_known:
  "findProviderForHost P host = Some provider \<Longrightarrow> provider \<in> set (SEARCH_PROVIDERS P)"
  by (auto simp: findProviderForHost_def Let_def find_Some_iff)

lemma fallbackLinkFor_eq:
  "\<exists>provider \<in> set (SEARCH_PROVIDERS P).
     fallbackLinkFor P cn fq loc remote index
       = Inr (buildUrl provider fq (Some cn) loc remote, name provider)"
proof -
  obtain provider where sel:
    "selectSearchProvider P (hashString (title fq @ '':'' @ query fq @ '':'' @ decimal (int index))) = Inr provider"
    by (simp add: selectSearchProvider_eq)
  then have "provider \<in> set (SEARCH_PROVIDERS P)"
    by (rule selected_provider_known)
  moreover have "fallbackLinkFor P cn fq loc remote index
       = Inr (buildUrl provider fq (Some cn) loc remote, name provider)"
    using sel by (simp add: fallbackLinkFor_def buildSearchLink_def Let_def)
  ultimately show ?thesis by blast
qed

lemma fallbackLinkFor_https:
  "fallbackLinkFor P cn fq loc remote index = Inr (link, src) \<Longrightarrow> startsWith link ''https://''"
  using fallbackLinkFor_eq [of P cn fq loc remote index] provider_url_https by auto

lemma ensureCompanyLink_https:
  assumes "ensureCompanyLink P rawLink cn fq loc remote index modelSource = Inr (link, src)"
  shows "startsWith link ''https://''"
proof -
  obtain fl fs where fb: "fallbackLinkFor P cn fq loc remote index = Inr (fl, fs)"
    using fallbackLinkFor_eq [of P cn fq loc remote index] by auto
  then have fl: "startsWith fl ''https://''"
    by (rule fallbackLinkFor_https)
  have "link = fl \<or> link = orEmpty rawLink \<and> startsWith (orEmpty rawLink) ''https://''
        \<or> (\<exists>prov \<in> set (SEARCH_PROVIDERS P). link = buildUrl prov fq (Some cn) loc remote)"
    using assms fb
    by (auto simp: ensureCompanyLink_def Let_def split: if_splits option.splits
        dest: findProviderForHost_known)
  with fl provider_url_https show ?thesis
    by blast
qed

lemma assemblePosting_url:
  assumes "assemblePosting P R queries loc remote index job = Inr posting"
  shows "startsWith (url posting) ''https://''"
  using assms
  by (auto simp: assemblePosting_def Let_def split: if_splits sum.splits prod.splits
      dest: ensureCompanyLink_https)

lemma mapIndexed_Inr:
  "mapIndexed f i xs = Inr ys \<Longrightarrow>
     length ys = length xs \<and> (\<forall>k<length xs. f (i + k) (xs ! k) = Inr (ys ! k))"
proof (induction xs arbitrary: i ys)
  case Nil
  then show ?case by simp
next
  case (Cons x xs)
  from Cons.prems obtain y ys' where y: "f i x = Inr y"
    and rest: "mapIndexed f (Suc i) xs = Inr ys'" and ys: "ys = y # ys'"
    by (auto split: sum.splits)
  from Cons.IH [OF rest] have len: "length ys' = length xs"
    and each: "\<forall>k<length xs. f (Suc i + k) (xs ! k) = Inr (ys' ! k)"
    by auto
  show ?case
  proof (intro conjI allI impI)
    show "length ys = length (x # xs)"
      using len ys by simp
  next
    fix k
    assume "k < length (x # xs)"
    then show "f (i + k) ((x # xs) ! k) = Inr (ys ! k)"
      using y each ys by (cases k) auto
  qed
qed

lemma mapIndexed_all:
  assumes "mapIndexed f i xs = Inr ys"
    and "\<And>k x y. f k x = Inr y \<Longrightarrow> Q y"
  shows "\<forall>y\<in>set ys. Q y"
proof
  fix y
  assume "y \<in> set ys"
  then obtain k where k: "k < length ys" "ys ! k = y"
    by (auto simp: in_set_conv_nth)
  from mapIndexed_Inr [OF assms(1)] k have "f (i + k) (xs ! k) = Inr y"
    by auto
  then show "Q y"
    by (rule assms(2))
qed

lemma fallback_provider_known:
  "SEARCH_PROVIDERS P ! nat (abs seed mod int (length (SEARCH_PROVIDERS P))) \<in> set (SEARCH_PROVIDERS P)"
proof -
  have "nat (abs seed mod int (length (SEARCH_PROVIDERS P))) < length (SEARCH_PROVIDERS P)"
    by (simp add: SEARCH_PROVIDERS_length)
  then show ?thesis
    using nth_mem by blast
qed

lemma fallbackPosting_url:
  "startsWith (url (fallbackPosting P now loc remote label q queryIndex offset)) ''https://''"
  by (simp add: fallbackPosting_def Let_def provider_url_https [OF fallback_provider_known])

lemma buildFallbackJobs_urls:
  "\<forall>posting \<in> set (buildFallbackJobs P now queries loc remote). startsWith (url posting) ''https://''"
  by (auto simp: buildFallbackJobs_def Let_def fallbackPosting_url)

text \<open>
  C3: whatever the queries, the location, the remote flag and the reply of the model,
  every posting of a list that the engine returns has a \<open>url\<close> that starts with
  \<open>https://\<close>. (With an API key the engine does return a list:
  \<open>generateJobs_with_key_returns\<close>.)
\<close>

theorem generateJobs_urls_https:
  assumes "generateJobsWithGemini P R queries loc remote = Inr postings"
  shows "\<forall>posting \<in> set postings. startsWith (url posting) ''https://''"
proof -
  have fb: "\<forall>posting \<in> set (buildFallbackJobs P (now_fallback R) queries loc remote).
              startsWith (url posting) ''https://''"
    by (rule buildFallbackJobs_urls)
  have ai: "\<forall>posting \<in> set ps. startsWith (url posting) ''https://''"
    if "mapIndexed (assemblePosting P R queries loc remote) 0 jobs = Inr ps" for jobs ps
    using that assemblePosting_url by (rule mapIndexed_all)
  from assms consider "postings = buildFallbackJobs P (now_fallback R) queries loc remote"
    | jobs ps where "mapIndexed (assemblePosting P R queries loc remote) 0 jobs = Inr ps"
        "postings = filter (\<lambda>job. url job \<noteq> []) ps"
    by (auto simp: generateJobsWithGemini_def synthesise_def split: sum.splits if_splits)
  then show ?thesis
  proof cases
    case 1
    with fb show ?thesis by simp
  next
    case 2
    with ai [OF 2(1)] show ?thesis by simp
  qed
qed


text \<open>The run in which the model suggests one posting, with a link to a Greenhouse board
  and no company.\<close>

lemma run_greenhouse:
  "generateJobsWithGemini examplePlatform (answeringRun greenhouseReply) [backendQuery]
     (Some ''Berlin'') False
   = Inr [\<lparr>id' = ''gemini-1700000000000-0'', title' = ''SRE'', company = Some ''Unknown'',
           location = Some ''Berlin'', salary = None,
           description = Some ''Review opportunities that align with Backend Engineer.'',
           url = ''https://boards.greenhouse.io/unknown/jobs/123'',
           source = Some ''AI curated'', postedAt = None\<rparr>]"
  by code_simp

theorem generateJobs_urls_https_witness:
  "generateJobsWithGemini examplePlatform (answeringRun greenhouseReply) [backendQuery]
     (Some ''Berlin'') False
   = Inr [\<lparr>id' = ''gemini-1700000000000-0'', title' = ''SRE'', company = Some ''Unknown'',
           location = Some ''Berlin'', salary = None,
           description = Some ''Review opportunities that align with Backend Engineer.'',
           url = ''https://boards.greenhouse.io/unknown/jobs/123'',
           source = Some ''AI curated'', postedAt = None\<rparr>]
   \<and> startsWith ''https://boards.greenhouse.io/unknown/jobs/123'' ''https://''"
  using generateJobs_urls_https [OF run_greenhouse] run_greenhouse by simp

subsection \<open>Link validation\<close>

lemma includes'_empty: "includes' s []"
  by (cases s) (simp_all add: startsWith_def)

lemma ensureCompanyLink_https_cases:
  assumes "startsWith raw ''https://''" and "URL_parse P raw = Some u"
    and "fallbackLinkFor P cn fq loc remote index = Inr (fl, fs)"
  shows "ensureCompanyLink P (Some raw) cn fq loc remote index modelSource =
     (if cn = [] then Inr (raw, orElse modelSource (orElse (map_option name (findProviderForHost P (hostname u))) fs))
      else case findProviderForHost P (hostname u) of
             Some prov \<Rightarrow>
               if slugify cn \<noteq> [] \<and> includes' (toLowerCase raw) (slugify cn)
               then Inr (raw, orElse modelSource (name prov))
               else Inr (buildUrl prov fq (Some cn) loc remote, name prov)
           | None \<Rightarrow>
               if slugify cn \<noteq> [] \<and> includes' (toLowerCase raw) (slugify cn)
               then Inr (raw, orElse modelSource ''AI curated'')
               else Inr (raw, orElse modelSource fs))"
proof -
  from assms(1) have "raw \<noteq> []"
    by (auto simp: startsWith_def)
  with assms show ?thesis
    by (simp add: ensureCompanyLink_def Let_def orEmpty_def split: option.split)
qed

text \<open>
  C6, as amended: when the model supplied no source label (\<open>modelSource\<close> undefined),
  for every https raw link whose host matches a known provider and whose lower-case form
  contains the slug of the company, the returned source is the name of that provider (and
  the link is the raw link, when the slug is not empty); and for every https raw link with
  an unrecognized host that does not contain the slug, the raw link is returned with the
  source label of the deterministic fallback link. When the model supplied a source
  label \<open>m\<close>, an accepted raw link carries \<open>m\<close> instead.
\<close>

theorem ensureCompanyLink_sources:
  "(startsWith raw ''https://'' \<and> URL_parse P raw = Some u
      \<and> findProviderForHost P (hostname u) = Some prov
      \<and> includes' (toLowerCase raw) (slugify cn)
    \<longrightarrow> (\<exists>link. ensureCompanyLink P (Some raw) cn fq loc remote index None = Inr (link, name prov))
        \<and> (slugify cn \<noteq> [] \<longrightarrow>
              ensureCompanyLink P (Some raw) cn fq loc remote index None = Inr (raw, name prov)
              \<and> ensureCompanyLink P (Some raw) cn fq loc remote index (Some m) = Inr (raw, m)))
   \<and> (startsWith raw ''https://'' \<and> URL_parse P raw = Some u
      \<and> findProviderForHost P (hostname u) = None
      \<and> \<not> includes' (toLowerCase raw) (slugify cn)
      \<and> fallbackLinkFor P cn fq loc remote index = Inr (fl, fs)
    \<longrightarrow> ensureCompanyLink P (Some raw) cn fq loc remote index None = Inr (raw, fs)
        \<and> ensureCompanyLink P (Some raw) cn fq loc remote index (Some m) = Inr (raw, m))"
proof (intro conjI impI)
  assume h: "startsWith raw ''https://'' \<and> URL_parse P raw = Some u
      \<and> findProviderForHost P (hostname u) = Some prov
      \<and> includes' (toLowerCase raw) (slugify cn)"
  obtain fl' fs' where fb: "fallbackLinkFor P cn fq loc remote index = Inr (fl', fs')"
    using fallbackLinkFor_eq [of P cn fq loc remote index] by auto
  have eq: "ensureCompanyLink P (Some raw) cn fq loc remote index ms =
     (if cn = [] then Inr (raw, orElse ms (name prov))
      else if slugify cn \<noteq> [] then Inr (raw, orElse ms (name prov))
      else Inr (buildUrl prov fq (Some cn) loc remote, name prov))" for ms
    using h by (simp add: ensureCompanyLink_https_cases [OF _ _ fb] orElse_def)
  show "\<exists>link. ensureCompanyLink P (Some raw) cn fq loc remote index None = Inr (link, name prov)"
    by (simp add: eq orElse_def)
  {
    assume "slugify cn \<noteq> []"
    then show "ensureCompanyLink P (Some raw) cn fq loc remote index None = Inr (raw, name prov)"
      and "ensureCompanyLink P (Some raw) cn fq loc remote index (Some m) = Inr (raw, m)"
      by (simp_all add: eq orElse_def)
  }
next
  assume h: "startsWith raw ''https://'' \<and> URL_parse P raw = Some u
      \<and> findProviderForHost P (hostname u) = None
      \<and> \<not> includes' (toLowerCase raw) (slugify cn)
      \<and> fallbackLinkFor P cn fq loc remote index = Inr (fl, fs)"
  then have fb: "fallbackLinkFor P cn fq loc remote index = Inr (fl, fs)"
    by simp
  from h have "slugify cn \<noteq> []"
    using includes'_empty by auto
  then have "cn \<noteq> []"
    by (auto simp: slugify_def toLowerCase_def)
  with h have eq: "ensureCompanyLink P (Some raw) cn fq loc remote index ms = Inr (raw, orElse ms fs)" for ms
    by (simp add: ensureCompanyLink_https_cases [OF _ _ fb])
  show "ensureCompanyLink P (Some raw) cn fq loc remote index None = Inr (raw, fs)"
    and "ensureCompanyLink P (Some raw) cn fq loc remote index (Some m) = Inr (raw, m)"
    by (simp_all add: eq orElse_def)
qed

text \<open>A LinkedIn search link that names Canva, and a link to an unknown host that does
  not.\<close>

lemma linkedin_link_facts:
  "startsWith ''https://www.linkedin.com/jobs/search/?keywords=canva'' ''https://''
   \<and> URL_parse examplePlatform ''https://www.linkedin.com/jobs/search/?keywords=canva''
       = Some \<lparr>hostname = ''www.linkedin.com'', pathname = ''/jobs/search/''\<rparr>
   \<and> map_option name (findProviderForHost examplePlatform ''www.linkedin.com'') = Some ''LinkedIn search''
   \<and> slugify ''Canva'' = ''canva''
   \<and> includes' (toLowerCase ''https://www.linkedin.com/jobs/search/?keywords=canva'') (slugify ''Canva'')"
  by code_simp

lemma unknown_link_facts:
  "startsWith ''https://careers.example.org/jobs/42'' ''https://''
   \<and> URL_parse examplePlatform ''https://careers.example.org/jobs/42''
       = Some \<lparr>hostname = ''careers.example.org'', pathname = ''/jobs/42''\<rparr>
   \<and> findProviderForHost examplePlatform ''careers.example.org'' = None
   \<and> \<not> includes' (toLowerCase ''https://careers.example.org/jobs/42'') (slugify ''Canva'')
   \<and> map_sum id snd (fallbackLinkFor examplePlatform ''Canva'' backendQuery None False 0)
       = Inr ''JobStreet search''"
  by code_simp

theorem ensureCompanyLink_sources_witness:
  "ensureCompanyLink examplePlatform (Some ''https://www.linkedin.com/jobs/search/?keywords=canva'')
     ''Canva'' backendQuery None False 0 None
     = Inr (''https://www.linkedin.com/jobs/search/?keywords=canva'', ''LinkedIn search'')
   \<and> ensureCompanyLink examplePlatform (Some ''https://careers.example.org/jobs/42'')
     ''Canva'' backendQuery None False 0 None
     = Inr (''https://careers.example.org/jobs/42'', ''JobStreet search'')"
proof -
  let ?raw = "''https://www.linkedin.com/jobs/search/?keywords=canva''"
  let ?u = "\<lparr>hostname = ''www.linkedin.com'', pathname = ''/jobs/search/''\<rparr>"
  let ?raw' = "''https://careers.example.org/jobs/42''"
  let ?u' = "\<lparr>hostname = ''careers.example.org'', pathname = ''/jobs/42''\<rparr>"
  obtain prov where prov: "findProviderForHost examplePlatform (hostname ?u) = Some prov"
    and nm: "name prov = ''LinkedIn search''"
    using linkedin_link_facts by auto
  have slug: "slugify ''Canva'' \<noteq> []"
    using linkedin_link_facts by simp
  have "startsWith ?raw ''https://'' \<and> URL_parse examplePlatform ?raw = Some ?u
      \<and> findProviderForHost examplePlatform (hostname ?u) = Some prov
      \<and> includes' (toLowerCase ?raw) (slugify ''Canva'')"
    using linkedin_link_facts prov by blast
  with slug have "ensureCompanyLink examplePlatform (Some ?raw) ''Canva'' backendQuery None False 0 None
      = Inr (?raw, name prov)"
    using ensureCompanyLink_sources [of ?raw examplePlatform ?u prov "''Canva''" backendQuery None False 0
        "''Gemini''"]
    by blast
  then have a: "ensureCompanyLink examplePlatform (Some ?raw) ''Canva'' backendQuery None False 0 None
      = Inr (?raw, ''LinkedIn search'')"
    by (simp only: nm)
  obtain fl where fl: "fallbackLinkFor examplePlatform ''Canva'' backendQuery None False 0
      = Inr (fl, ''JobStreet search'')"
    using unknown_link_facts
    by (cases "fallbackLinkFor examplePlatform ''Canva'' backendQuery None False 0") auto
  have none: "findProviderForHost examplePlatform (hostname ?u') = None"
    using unknown_link_facts by simp
  have "startsWith ?raw' ''https://'' \<and> URL_parse examplePlatform ?raw' = Some ?u'
      \<and> findProviderForHost examplePlatform (hostname ?u') = None
      \<and> \<not> includes' (toLowerCase ?raw') (slugify ''Canva'')
      \<and> fallbackLinkFor examplePlatform ''Canva'' backendQuery None False 0 = Inr (fl, ''JobStreet search'')"
    using unknown_link_facts none fl by blast
  then have b: "ensureCompanyLink examplePlatform (Some ?raw') ''Canva'' backendQuery None False 0 None
      = Inr (?raw', ''JobStreet search'')"
    using ensureCompanyLink_sources [where raw = ?raw' and u = ?u' and fl = fl
          and fs = "''JobStreet search''" and P = examplePlatform and cn = "''Canva''"
          and fq = backendQuery and loc = None and remote = False and index = 0]
    by blast
  from a b show ?thesis
    by (rule conjI)
qed

text \<open>
  C6 as stated fails: \<open>ensureCompanyLink\<close> has a seventh argument, the source label of
  the model, which wins over the name of the provider. Here the host is LinkedIn's, the
  link contains the slug \<open>canva\<close>, and the returned source is the label \<open>Gemini\<close> of the
  model, not \<open>LinkedIn search\<close>.
\<close>

theorem ensureCompanyLink_model_source_counterexample:
  "startsWith ''https://www.linkedin.com/jobs/search/?keywords=canva'' ''https://''
   \<and> map_option hostname (URL_parse examplePlatform ''https://www.linkedin.com/jobs/search/?keywords=canva'')
       = Some ''www.linkedin.com''
   \<and> map_option name (findProviderForHost examplePlatform ''www.linkedin.com'') = Some ''LinkedIn search''
   \<and> includes' (toLowerCase ''https://www.linkedin.com/jobs/search/?keywords=canva'') (slugify ''Canva'')
   \<and> ensureCompanyLink examplePlatform (Some ''https://www.linkedin.com/jobs/search/?keywords=canva'')
        ''Canva'' backendQuery None False 0 (Some ''Gemini'')
       = Inr (''https://www.linkedin.com/jobs/search/?keywords=canva'', ''Gemini'')
   \<and> ''Gemini'' \<noteq> ''LinkedIn search''"
  by code_simp

subsection \<open>Identifiers of the postings\<close>

lemma digit_inj:
  assumes "0 \<le> a" "a < 10" "0 \<le> b" "b < 10" "digit a = digit b"
  shows "a = b"
proof -
  have "distinct ''0123456789''" by simp
  moreover have "nat a < length ''0123456789''" "nat b < length ''0123456789''"
    using assms by simp_all
  ultimately have "nat a = nat b"
    using assms(5) unfolding digit_def by (simp only: nth_eq_iff_index_eq)
  with assms show ?thesis by simp
qed

lemma digit_not_dash:
  assumes "0 \<le> d" "d < 10"
  shows "digit d \<noteq> CHR ''-''"
proof -
  have "nat d < length ''0123456789''"
    using assms by simp
  then have "digit d \<in> set ''0123456789''"
    unfolding digit_def by (rule nth_mem)
  then show ?thesis by auto
qed

lemma digits_nonempty: "digits n \<noteq> []"
  by (subst digits.simps) simp

lemma digits_no_dash: "0 \<le> n \<Longrightarrow> CHR ''-'' \<notin> set (digits n)"
proof (induction n rule: digits.induct)
  case (1 n)
  show ?case
  proof (cases "n < 10")
    case True
    with "1.prems" show ?thesis
      using digit_not_dash [of n] by (subst digits.simps) auto
  next
    case False
    then have "CHR ''-'' \<notin> set (digits (n div 10))"
      using "1.IH" by simp
    moreover have "digit (n mod 10) \<noteq> CHR ''-''"
      by (rule digit_not_dash) simp_all
    ultimately show ?thesis
      using False by (subst digits.simps) auto
  qed
qed

lemma digits_inj: "0 \<le> a \<Longrightarrow> 0 \<le> b \<Longrightarrow> digits a = digits b \<Longrightarrow> a = b"
proof (induction a arbitrary: b rule: digits.induct)
  case (1 a)
  show ?case
  proof (cases "a < 10")
    case True
    note a = this
    show ?thesis
    proof (cases "b < 10")
      case True
      with a "1.prems" have "digit a = digit b"
        by (simp add: digits.simps [of a] digits.simps [of b])
      with a True "1.prems" show ?thesis
        by (intro digit_inj)
    next
      case False
      with a "1.prems" have "[digit a] = digits (b div 10) @ [digit (b mod 10)]"
        by (simp add: digits.simps [of a] digits.simps [of b])
      then show ?thesis
        using digits_nonempty [of "b div 10"] by simp
    qed
  next
    case False
    note a = this
    show ?thesis
    proof (cases "b < 10")
      case True
      with a "1.prems" have "digits (a div 10) @ [digit (a mod 10)] = [digit b]"
        by (simp add: digits.simps [of a] digits.simps [of b])
      then show ?thesis
        using digits_nonempty [of "a div 10"] by simp
    next
      case False
      with a "1.prems" have "digits (a div 10) @ [digit (a mod 10)] = digits (b div 10) @ [digit (b mod 10)]"
        by (simp add: digits.simps [of a] digits.simps [of b])
      then have hi: "digits (a div 10) = digits (b div 10)" and lo: "digit (a mod 10) = digit (b mod 10)"
        by simp_all
      from "1.IH" [OF a _ _ hi] "1.prems" have "a div 10 = b div 10"
        by simp
      moreover from lo have "a mod 10 = b mod 10"
        by (intro digit_inj) simp_all
      ultimately have "a div 10 * 10 + a mod 10 = b div 10 * 10 + b mod 10"
        by (simp only:)
      then show ?thesis
        by (simp only: div_mult_mod_eq)
    qed
  qed
qed

lemma decimal_nat: "decimal (int n) = digits (int n)"
  by (simp add: decimal_def)

lemma decimal_nat_inj: "decimal (int i) = decimal (int j) \<Longrightarrow> i = j"
  using digits_inj [of "int i" "int j"] by (simp add: decimal_nat)

lemma decimal_nat_no_dash: "CHR ''-'' \<notin> set (decimal (int n))"
  by (simp add: decimal_nat digits_no_dash)

lemma split_at_first:
  assumes "xs @ c # ys = xs' @ c # ys'" and "c \<notin> set xs" and "c \<notin> set xs'"
  shows "xs = xs' \<and> ys = ys'"
proof -
  have "takeWhile (\<lambda>x. x \<noteq> c) (xs @ c # ys) = xs" "takeWhile (\<lambda>x. x \<noteq> c) (xs' @ c # ys') = xs'"
    using assms(2,3) by (auto simp: takeWhile_tail)
  with assms(1) have "xs = xs'" by simp
  with assms(1) show ?thesis by simp
qed

lemma split_at_last:
  assumes "xs @ c # ys = xs' @ c # ys'" and "c \<notin> set ys" and "c \<notin> set ys'"
  shows "ys = ys'"
proof -
  from assms(1) have "rev (xs @ c # ys) = rev (xs' @ c # ys')"
    by (rule arg_cong)
  then have eq: "rev ys @ c # rev xs = rev ys' @ c # rev xs'"
    by simp
  have "c \<notin> set (rev ys)" "c \<notin> set (rev ys')"
    using assms(2,3) by simp_all
  with eq have "rev ys = rev ys' \<and> rev xs = rev xs'"
    by (rule split_at_first)
  then show ?thesis by simp
qed

text \<open>The identifiers that the engine generates.\<close>

lemma generated_ids_differ:
  assumes "''gemini-'' @ decimal t @ ''-'' @ decimal (int i) = ''gemini-'' @ decimal t' @ ''-'' @ decimal (int j)"
  shows "i = j"
proof -
  from assms have "(''gemini-'' @ decimal t) @ CHR ''-'' # decimal (int i)
      = (''gemini-'' @ decimal t') @ CHR ''-'' # decimal (int j)"
    by simp
  then have "decimal (int i) = decimal (int j)"
    by (rule split_at_last [OF _ decimal_nat_no_dash decimal_nat_no_dash])
  then show ?thesis
    by (rule decimal_nat_inj)
qed

lemma fallback_ids_differ:
  assumes "''fallback-'' @ decimal (int q) @ ''-'' @ decimal (int off) @ ''-'' @ decimal now
      = ''fallback-'' @ decimal (int q') @ ''-'' @ decimal (int off') @ ''-'' @ decimal now"
  shows "q = q' \<and> off = off'"
proof -
  from assms have "decimal (int q) @ CHR ''-'' # (decimal (int off) @ CHR ''-'' # decimal now)
      = decimal (int q') @ CHR ''-'' # (decimal (int off') @ CHR ''-'' # decimal now)"
    by simp
  then have "decimal (int q) = decimal (int q')
      \<and> decimal (int off) @ CHR ''-'' # decimal now = decimal (int off') @ CHR ''-'' # decimal now"
    by (rule split_at_first [OF _ decimal_nat_no_dash decimal_nat_no_dash])
  then have "decimal (int q) = decimal (int q')" and "decimal (int off) = decimal (int off')"
    by simp_all
  then show ?thesis
    by (simp add: decimal_nat_inj)
qed

lemma buildFallbackJobs_blocks:
  "buildFallbackJobs P now queries loc remote =
     concat (map (\<lambda>(queryIndex, q).
               map (\<lambda>offset. fallbackPosting P now loc remote
                      (if remote then ''Remote''
                       else if orEmpty loc \<noteq> [] then orEmpty loc else ''Flexible location'')
                      q queryIndex offset) [0..<5])
            (enumerate 0 queries))"
  by (simp add: buildFallbackJobs_def Let_def SEARCH_PROVIDERS_length)

lemma distinct_blocks:
  assumes "\<And>qi q off qi' q' off'. h (g qi q off) = h (g qi' q' off') \<Longrightarrow> qi = qi' \<and> off = off'"
  shows "distinct (map h (concat (map (\<lambda>(qi, q). map (g qi q) [0..<n]) (enumerate k qs))))"
proof (induction qs arbitrary: k)
  case Nil
  show ?case by simp
next
  case (Cons q qs)
  have first: "distinct (map h (map (g k q) [0..<n]))"
  proof -
    have "inj_on (\<lambda>off. h (g k q off)) (set [0..<n])"
      using assms by (auto simp: inj_on_def)
    then show ?thesis
      by (simp add: distinct_map comp_def)
  qed
  have apart: "set (map h (map (g k q) [0..<n]))
        \<inter> set (map h (concat (map (\<lambda>(qi, q). map (g qi q) [0..<n]) (enumerate (Suc k) qs)))) = {}"
  proof (rule ccontr)
    assume "\<not> ?thesis"
    then obtain off qi q' off' where "h (g k q off) = h (g qi q' off')" "(qi, q') \<in> set (enumerate (Suc k) qs)"
      by auto
    then have "k = qi" "Suc k \<le> qi"
      using assms by (auto simp: in_set_enumerate_eq)
    then show False by simp
  qed
  from first Cons.IH [of "Suc k"] apart show ?case
    by simp
qed

lemma fallbackPosting_id:
  "id' (fallbackPosting P now loc remote label q queryIndex offset)
     = ''fallback-'' @ decimal (int queryIndex) @ ''-'' @ decimal (int offset) @ ''-'' @ decimal now"
  by (simp add: fallbackPosting_def Let_def)

lemma buildFallbackJobs_ids_distinct:
  "distinct (map id' (buildFallbackJobs P now queries loc remote))"
  unfolding buildFallbackJobs_blocks
  by (rule distinct_blocks) (simp only: fallbackPosting_id, rule fallback_ids_differ)

lemma assemblePosting_generated_id:
  assumes "assemblePosting P R queries loc remote index job = Inr posting"
    and "orEmpty (stringProp job ''id'') = []"
  shows "id' posting = ''gemini-'' @ decimal (now_at R index) @ ''-'' @ decimal (int index)"
  using assms
  by (auto simp: assemblePosting_def Let_def split: if_splits sum.splits prod.splits)

lemma generated_ids_distinct:
  assumes "mapIndexed (assemblePosting P R queries loc remote) 0 jobs = Inr ps"
    and "\<forall>job \<in> set jobs. orEmpty (stringProp job ''id'') = []"
  shows "distinct (map id' ps)"
proof -
  from mapIndexed_Inr [OF assms(1)] have len: "length ps = length jobs"
    and each: "\<And>k. k < length jobs \<Longrightarrow> assemblePosting P R queries loc remote k (jobs ! k) = Inr (ps ! k)"
    by auto
  have ids: "id' (ps ! k) = ''gemini-'' @ decimal (now_at R k) @ ''-'' @ decimal (int k)"
    if "k < length jobs" for k
    using each [OF that] assms(2) that by (intro assemblePosting_generated_id) auto
  show ?thesis
  proof (unfold distinct_conv_nth, intro allI impI)
    fix i j
    assume "i < length (map id' ps)" "j < length (map id' ps)" "i \<noteq> j"
    then have i: "i < length jobs" and j: "j < length jobs"
      using len by simp_all
    show "map id' ps ! i \<noteq> map id' ps ! j"
    proof
      assume "map id' ps ! i = map id' ps ! j"
      then have "id' (ps ! i) = id' (ps ! j)"
        using i j len by simp
      then have "i = j"
        unfolding ids [OF i] ids [OF j] by (rule generated_ids_differ)
      with \<open>i \<noteq> j\<close> show False by simp
    qed
  qed
qed

lemma generateJobs_cases:
  assumes "generateJobsWithGemini P R queries loc remote = Inr postings"
  obtains "postings = buildFallbackJobs P (now_fallback R) queries loc remote"
  | jobs ps where "suggestedJobs P R = Inr jobs" "jobs \<noteq> []"
      "mapIndexed (assemblePosting P R queries loc remote) 0 jobs = Inr ps"
      "postings = filter (\<lambda>job. url job \<noteq> []) ps"
  using assms
  by (auto simp: generateJobsWithGemini_def synthesise_def split: sum.splits if_splits)

text \<open>
  C8, as amended: the \<open>id\<close> values of one batch are pairwise distinct in every fallback
  batch, and in every batch built from a reply of the model in which no raw posting
  carries a non-empty string \<open>id\<close> of its own (the engine then generates
  \<open>gemini-<clock>-<index>\<close>). An \<open>id\<close> supplied by the model is copied as it is.
\<close>

theorem posting_ids_distinct:
  "distinct (map id' (buildFallbackJobs P now queries loc remote))
   \<and> (generateJobsWithGemini P R queries loc remote = Inr postings
       \<and> (\<forall>jobs. suggestedJobs P R = Inr jobs \<longrightarrow>
             (\<forall>job \<in> set jobs. orEmpty (stringProp job ''id'') = []))
      \<longrightarrow> distinct (map id' postings))"
proof (intro conjI impI)
  show "distinct (map id' (buildFallbackJobs P now queries loc remote))"
    by (rule buildFallbackJobs_ids_distinct)
next
  assume h: "generateJobsWithGemini P R queries loc remote = Inr postings
       \<and> (\<forall>jobs. suggestedJobs P R = Inr jobs \<longrightarrow>
             (\<forall>job \<in> set jobs. orEmpty (stringProp job ''id'') = []))"
  then have gen: "generateJobsWithGemini P R queries loc remote = Inr postings"
    by simp
  from gen show "distinct (map id' postings)"
  proof (cases rule: generateJobs_cases)
    case 1
    then show ?thesis
      by (simp only: buildFallbackJobs_ids_distinct)
  next
    case (2 jobs ps)
    with h have "\<forall>job \<in> set jobs. orEmpty (stringProp job ''id'') = []"
      by blast
    with 2(3) have "distinct (map id' ps)"
      by (rule generated_ids_distinct)
    then show ?thesis
      unfolding 2(4) by (rule distinct_map_filter)
  qed
qed


text \<open>The run in which the model suggests the same posting twice, without \<open>id\<close>.\<close>

lemma run_repeated:
  "generateJobsWithGemini examplePlatform (answeringRun repeatedReply) [backendQuery]
     (Some ''Berlin'') False
   = Inr [\<lparr>id' = ''gemini-1700000000000-0'', title' = ''Designer'', company = Some ''Canva'',
           location = Some ''Berlin'', salary = None,
           description = Some ''Review opportunities that align with Backend Engineer.'',
           url = ''https://www.canva.com/careers'',
           source = Some ''AI curated'', postedAt = None\<rparr>,
          \<lparr>id' = ''gemini-1700000000000-1'', title' = ''Designer'', company = Some ''Canva'',
           location = Some ''Berlin'', salary = None,
           description = Some ''Review opportunities that align with Backend Engineer.'',
           url = ''https://www.canva.com/careers'',
           source = Some ''AI curated'', postedAt = None\<rparr>]"
  by code_simp

lemma suggested_repeated:
  "suggestedJobs examplePlatform (answeringRun repeatedReply)
     = Inr [JObject [(''title'', JString ''Designer''), (''company'', JString ''Canva''),
                     (''link'', JString ''https://www.canva.com/careers'')],
            JObject [(''title'', JString ''Designer''), (''company'', JString ''Canva''),
                     (''link'', JString ''https://www.canva.com/careers'')]]"
  by code_simp

theorem posting_ids_distinct_witness:
  "map_sum id (map id') (generateJobsWithGemini examplePlatform (answeringRun repeatedReply)
       [backendQuery] (Some ''Berlin'') False)
     = Inr [''gemini-1700000000000-0'', ''gemini-1700000000000-1'']
   \<and> distinct [''gemini-1700000000000-0'', ''gemini-1700000000000-1'']
   \<and> distinct (map id' (buildFallbackJobs examplePlatform 1700000000000 [backendQuery]
                          (Some ''Berlin'') False))"
proof -
  have none: "\<forall>jobs. suggestedJobs examplePlatform (answeringRun repeatedReply) = Inr jobs \<longrightarrow>
             (\<forall>job \<in> set jobs. orEmpty (stringProp job ''id'') = [])"
    by (simp add: suggested_repeated stringProp_def orEmpty_def)
  note inst = posting_ids_distinct [of examplePlatform 1700000000000 "[backendQuery]" "Some ''Berlin''"
      False "answeringRun repeatedReply" _]
  from inst have fb: "distinct (map id' (buildFallbackJobs examplePlatform 1700000000000 [backendQuery]
                          (Some ''Berlin'') False))"
    by (rule conjunct1)
  from inst [THEN conjunct2, rule_format, OF conjI, OF run_repeated none]
  have "distinct [''gemini-1700000000000-0'', ''gemini-1700000000000-1'']"
    by simp
  with fb show ?thesis
    by (simp add: run_repeated)
qed

text \<open>
  C8 as stated fails: when the model gives two raw postings the same \<open>id\<close>, both
  postings of the batch carry it.
\<close>

theorem posting_ids_counterexample:
  "map_sum id (map id') (generateJobsWithGemini examplePlatform (answeringRun sameIdReply)
       [backendQuery] (Some ''Berlin'') False)
     = Inr [''job-1'', ''job-1'']
   \<and> \<not> distinct [''job-1'', ''job-1'']"
  by code_simp

subsection \<open>Duplicates\<close>

lemma COMPANY_BUCKETS_distinct:
  "\<forall>bucket \<in> set COMPANY_BUCKETS. distinct (companies bucket) \<and> length (companies bucket) = 5"
  by (simp add: COMPANY_BUCKETS_def)

lemma DEFAULT_COMPANIES_distinct: "distinct DEFAULT_COMPANIES \<and> length DEFAULT_COMPANIES = 10"
  by (simp add: DEFAULT_COMPANIES_def)

text \<open>The sample company of a query is read from one list, chosen by the query alone, at
  a position that moves with the index.\<close>

lemma pickSampleCompany_form:
  "\<exists>cs h. distinct cs \<and> 5 \<le> length cs \<and> 0 \<le> h
     \<and> (cs = DEFAULT_COMPANIES \<or> (\<exists>bucket \<in> set COMPANY_BUCKETS. cs = companies bucket))
     \<and> (\<forall>i. pickSampleCompany q i = cs ! nat ((h + int i) mod int (length cs)))"
proof (cases "find (\<lambda>bucket. list_ex (\<lambda>keyword. includes' (toLowerCase (title q @ '' '' @ query q)) keyword)
                 (bucket_keywords bucket)) COMPANY_BUCKETS")
  case None
  then have "\<forall>i. pickSampleCompany q i
      = DEFAULT_COMPANIES ! nat ((abs (hashString (toLowerCase (title q @ '' '' @ query q))) + int i)
          mod int (length DEFAULT_COMPANIES))"
    by (simp add: pickSampleCompany_def Let_def)
  with DEFAULT_COMPANIES_distinct show ?thesis
    by (intro exI [of _ DEFAULT_COMPANIES]
        exI [of _ "abs (hashString (toLowerCase (title q @ '' '' @ query q)))"]) simp
next
  case (Some bucket)
  then have "bucket \<in> set COMPANY_BUCKETS"
    by (auto simp: find_Some_iff)
  moreover from Some have "\<forall>i. pickSampleCompany q i
      = companies bucket ! nat ((abs (hashString (toLowerCase (title q @ '' '' @ query q))) + int i)
          mod int (length (companies bucket)))"
    by (simp add: pickSampleCompany_def Let_def)
  ultimately show ?thesis
    using COMPANY_BUCKETS_distinct
    by (intro exI [of _ "companies bucket"]
        exI [of _ "abs (hashString (toLowerCase (title q @ '' '' @ query q)))"]) auto
qed

lemma positions_differ:
  assumes "0 \<le> h" "5 \<le> n" "i < j" "j < i + 5"
  shows "nat ((h + int i) mod int n) \<noteq> nat ((h + int j) mod int n)"
proof
  assume "nat ((h + int i) mod int n) = nat ((h + int j) mod int n)"
  moreover have "0 \<le> (h + int i) mod int n" "0 \<le> (h + int j) mod int n"
    using assms by simp_all
  ultimately have "(h + int j) mod int n = (h + int i) mod int n"
    by linarith
  then have "int n dvd (h + int j) - (h + int i)"
    by (simp only: mod_eq_dvd_iff)
  then have "int n dvd int j - int i"
    by simp
  moreover have "0 < int j - int i"
    using assms by simp
  ultimately have "int n \<le> int j - int i"
    by (rule zdvd_imp_le)
  with assms show False
    by linarith
qed

lemma sample_companies_distinct:
  "distinct (map (\<lambda>offset. pickSampleCompany q (k + offset)) [0..<5])"
proof -
  obtain cs h where cs: "distinct cs" "5 \<le> length cs" "0 \<le> h"
    and pick: "\<And>i. pickSampleCompany q i = cs ! nat ((h + int i) mod int (length cs))"
    using pickSampleCompany_form [of q] by blast
  have pos: "nat ((h + int i) mod int (length cs)) < length cs" for i
  proof -
    have "0 < int (length cs)"
      using cs(2) by linarith
    then have "(h + int i) mod int (length cs) < int (length cs)"
      and "0 \<le> (h + int i) mod int (length cs)"
      by (rule pos_mod_bound, rule pos_mod_sign)
    then show ?thesis
      by (simp only: nat_less_iff)
  qed
  have ne: "pickSampleCompany q (k + a) \<noteq> pickSampleCompany q (k + b)" if "a < b" "b < 5" for a b
  proof -
    have "nat ((h + int (k + a)) mod int (length cs)) \<noteq> nat ((h + int (k + b)) mod int (length cs))"
      using cs that by (intro positions_differ) simp_all
    then have "cs ! nat ((h + int (k + a)) mod int (length cs))
        \<noteq> cs ! nat ((h + int (k + b)) mod int (length cs))"
      by (simp add: nth_eq_iff_index_eq [OF cs(1) pos pos] del: of_nat_add)
    then show ?thesis
      unfolding pick .
  qed
  have "inj_on (\<lambda>offset. pickSampleCompany q (k + offset)) (set [0..<5])"
  proof (rule inj_onI)
    fix a b
    assume "a \<in> set [0..<5]" "b \<in> set [0..<5]"
      and eq: "pickSampleCompany q (k + a) = pickSampleCompany q (k + b)"
    then have "a < 5" "b < 5" by simp_all
    with eq ne [of a b] ne [of b a] show "a = b"
      by (cases a b rule: linorder_cases) auto
  qed
  then show ?thesis
    by (simp add: distinct_map)
qed

lemma fallbackPosting_company:
  "company (fallbackPosting P now loc remote label q queryIndex offset)
     = Some (pickSampleCompany q (queryIndex + offset))"
  by (simp add: fallbackPosting_def Let_def)

lemma take_drop_concat:
  assumes "\<forall>xs \<in> set xss. length xs = n" and "k < length xss"
  shows "take n (drop (n * k) (concat xss)) = xss ! k"
  using assms
proof (induction xss arbitrary: k)
  case Nil
  then show ?case by simp
next
  case (Cons xs xss)
  show ?case
  proof (cases k)
    case 0
    with Cons.prems show ?thesis by simp
  next
    case (Suc k')
    with Cons.prems have "take n (drop (n * k') (concat xss)) = xss ! k'"
      by (intro Cons.IH) simp_all
    with Suc Cons.prems show ?thesis
      by simp
  qed
qed

lemma fallback_group:
  assumes "k < length queries"
  shows "take 5 (drop (5 * k) (buildFallbackJobs P now queries loc remote))
     = map (\<lambda>offset. fallbackPosting P now loc remote
              (if remote then ''Remote''
               else if orEmpty loc \<noteq> [] then orEmpty loc else ''Flexible location'')
              (queries ! k) k offset) [0..<5]"
  unfolding buildFallbackJobs_blocks
  using assms by (subst take_drop_concat) (auto simp: nth_enumerate_eq)

lemma fallback_group_companies_distinct:
  assumes "k < length queries"
  shows "distinct (map company (take 5 (drop (5 * k) (buildFallbackJobs P now queries loc remote))))"
proof -
  have "distinct (map Some (map (\<lambda>offset. pickSampleCompany (queries ! k) (k + offset)) [0..<5]))"
    using sample_companies_distinct by (simp only: distinct_map) simp
  then show ?thesis
    by (simp add: fallback_group [OF assms] fallbackPosting_company comp_def)
qed


lemma ensureCompanyLink_total:
  "\<exists>link src. ensureCompanyLink P rawLink cn fq loc remote index modelSource = Inr (link, src)"
proof -
  obtain fl fs where "fallbackLinkFor P cn fq loc remote index = Inr (fl, fs)"
    using fallbackLinkFor_eq [of P cn fq loc remote index] by auto
  then show ?thesis
    by (simp add: ensureCompanyLink_def Let_def split: option.split)
qed

lemma assemblePosting_total:
  assumes "queries \<noteq> []" and "job \<noteq> JNull"
  shows "\<exists>posting. assemblePosting P R queries loc remote index job = Inr posting"
proof -
  obtain link src where
    "ensureCompanyLink P (stringProp job ''link'')
       (normaliseCompanyName P (stringProp job ''company'') (orEmpty (stringProp job ''link''))
          (queries ! (index mod length queries)) index)
       (queries ! (index mod length queries)) loc remote index (stringProp job ''source'')
     = Inr (link, src)"
    using ensureCompanyLink_total by blast
  with assms show ?thesis
    by (simp add: assemblePosting_def Let_def)
qed

lemma mapIndexed_total:
  assumes "\<And>i x. x \<in> set xs \<Longrightarrow> \<exists>y. f i x = Inr y"
  shows "\<exists>ys. mapIndexed f i xs = Inr ys"
  using assms
proof (induction xs arbitrary: i)
  case Nil
  show ?case by simp
next
  case (Cons x xs)
  obtain y where "f i x = Inr y"
    using Cons.prems [of x i] by auto
  moreover obtain ys where "mapIndexed f (Suc i) xs = Inr ys"
    using Cons.IH [of "Suc i"] Cons.prems by auto
  ultimately show ?case by simp
qed

lemma https_nonempty: "startsWith u ''https://'' \<Longrightarrow> u \<noteq> []"
  by (auto simp: startsWith_def)

lemma suggested_postings_kept:
  assumes "GEMINI_KEY R \<noteq> []" "queries \<noteq> []" "suggestedJobs P R = Inr jobs" "jobs \<noteq> []"
    "JNull \<notin> set jobs"
  shows "\<exists>postings. generateJobsWithGemini P R queries loc remote = Inr postings
     \<and> length postings = length jobs
     \<and> (\<forall>k<length jobs. assemblePosting P R queries loc remote k (jobs ! k) = Inr (postings ! k))"
proof -
  have "\<exists>posting. assemblePosting P R queries loc remote i job = Inr posting" if "job \<in> set jobs" for i job
    using that assms(2,5) by (intro assemblePosting_total) auto
  then obtain ps where ps: "mapIndexed (assemblePosting P R queries loc remote) 0 jobs = Inr ps"
    using mapIndexed_total [of jobs "assemblePosting P R queries loc remote" 0] by blast
  have "\<forall>posting \<in> set ps. startsWith (url posting) ''https://''"
    using ps assemblePosting_url by (rule mapIndexed_all)
  then have "filter (\<lambda>job. url job \<noteq> []) ps = ps"
    by (auto simp: filter_id_conv dest: https_nonempty)
  with ps assms have "generateJobsWithGemini P R queries loc remote = Inr ps"
    by (simp add: generateJobsWithGemini_def getModel_def synthesise_def)
  with mapIndexed_Inr [OF ps] show ?thesis
    by simp
qed

text \<open>
  C4, as amended: the engine does not deduplicate the postings that the model suggests.
  When the reply holds raw postings (none of them \<open>null\<close>), the returned list has
  exactly one posting for each raw posting, in the order of the reply, so a raw posting
  given twice is returned twice. In the fallback list, the five postings generated for
  any one query have pairwise distinct companies, so no two of them are duplicates of
  each other.
\<close>

theorem postings_not_deduplicated:
  "(GEMINI_KEY R \<noteq> [] \<and> queries \<noteq> [] \<and> suggestedJobs P R = Inr jobs \<and> jobs \<noteq> []
      \<and> JNull \<notin> set jobs
    \<longrightarrow> (\<exists>postings. generateJobsWithGemini P R queries loc remote = Inr postings
           \<and> length postings = length jobs
           \<and> (\<forall>k<length jobs.
                 assemblePosting P R queries loc remote k (jobs ! k) = Inr (postings ! k))))
   \<and> (k < length queries
    \<longrightarrow> distinct (map company (take 5 (drop (5 * k) (buildFallbackJobs P now queries loc remote)))))"
  using suggested_postings_kept [of R queries P jobs loc remote]
    fallback_group_companies_distinct [of k queries P now loc remote]
  by blast

theorem postings_not_deduplicated_witness:
  "(\<exists>postings. generateJobsWithGemini examplePlatform (answeringRun repeatedReply) [backendQuery]
        (Some ''Berlin'') False = Inr postings
      \<and> length postings = 2)
   \<and> distinct (map company (take 5 (drop (5 * 0)
        (buildFallbackJobs examplePlatform 1700000000000 [backendQuery] (Some ''Berlin'') False))))"
proof -
  note inst = postings_not_deduplicated [of "answeringRun repeatedReply" "[backendQuery]"
      examplePlatform _ "Some ''Berlin''" False 0 1700000000000]
  have key: "GEMINI_KEY (answeringRun repeatedReply) \<noteq> []"
    by (simp add: answeringRun_def)
  have "GEMINI_KEY (answeringRun repeatedReply) \<noteq> [] \<and> [backendQuery] \<noteq> []
      \<and> suggestedJobs examplePlatform (answeringRun repeatedReply)
          = Inr [JObject [(''title'', JString ''Designer''), (''company'', JString ''Canva''),
                     (''link'', JString ''https://www.canva.com/careers'')],
                 JObject [(''title'', JString ''Designer''), (''company'', JString ''Canva''),
                     (''link'', JString ''https://www.canva.com/careers'')]]
      \<and> [JObject [(''title'', JString ''Designer''), (''company'', JString ''Canva''),
                     (''link'', JString ''https://www.canva.com/careers'')],
                 JObject [(''title'', JString ''Designer''), (''company'', JString ''Canva''),
                     (''link'', JString ''https://www.canva.com/careers'')]] \<noteq> []
      \<and> JNull \<notin> set [JObject [(''title'', JString ''Designer''), (''company'', JString ''Canva''),
                     (''link'', JString ''https://www.canva.com/careers'')],
                 JObject [(''title'', JString ''Designer''), (''company'', JString ''Canva''),
                     (''link'', JString ''https://www.canva.com/careers'')]]"
    using key by (simp add: suggested_repeated)
  with inst [THEN conjunct1] have "\<exists>postings. generateJobsWithGemini examplePlatform
        (answeringRun repeatedReply) [backendQuery] (Some ''Berlin'') False = Inr postings
      \<and> length postings = 2"
    by fastforce
  moreover from inst [THEN conjunct2] have "distinct (map company (take 5 (drop (5 * 0)
        (buildFallbackJobs examplePlatform 1700000000000 [backendQuery] (Some ''Berlin'') False))))"
    by simp
  ultimately show ?thesis
    by (rule conjI)
qed

text \<open>
  C4 as stated fails: the model suggests the same posting twice (same company, same
  link), and the returned list holds it twice.
\<close>

theorem postings_duplicate_counterexample:
  "map_sum id (map (\<lambda>posting. (company posting, url posting)))
     (generateJobsWithGemini examplePlatform (answeringRun repeatedReply) [backendQuery]
        (Some ''Berlin'') False)
     = Inr [(Some ''Canva'', ''https://www.canva.com/careers''),
            (Some ''Canva'', ''https://www.canva.com/careers'')]
   \<and> \<not> distinct [(Some ''Canva'', ''https://www.canva.com/careers''),
                   (Some ''Canva'', ''https://www.canva.com/careers'')]"
  by code_simp

subsection \<open>Company names of the postings\<close>

text \<open>None of the sample companies is judged generic.\<close>

lemma sample_names_specific_1:
  "list_all (\<lambda>c. \<not> isGenericCompanyName c)
     [''Snowflake'', ''Databricks'', ''Palantir'', ''Anthropic'', ''Airbnb'', ''Vercel'',
      ''Netlify'', ''Canva'', ''Shopify'', ''Pinterest'', ''Cloudflare'', ''HashiCorp'',
      ''Twilio'', ''DigitalOcean'', ''MongoDB'', ''Datadog'', ''PagerDuty'']"
  by code_simp

lemma sample_names_specific_2:
  "list_all (\<lambda>c. \<not> isGenericCompanyName c)
     [''GitHub'', ''GitLab'', ''New Relic'', ''Spotify'', ''Duolingo'', ''Lyft'',
      ''Uber'', ''Headspace'', ''Okta'', ''CrowdStrike'', ''Snyk'', ''1Password'',
      ''Atlassian'', ''Notion'', ''Asana'', ''Monday.com'', ''Linear'']"
  by code_simp

lemma sample_names_specific_3:
  "list_all (\<lambda>c. \<not> isGenericCompanyName c)
     [''Figma'', ''Adobe'', ''IDEO'', ''InVision'', ''HubSpot'', ''Klaviyo'',
      ''Mailchimp'', ''Sprout Social'', ''Salesforce'', ''Gong'', ''Outreach'',
      ''Zendesk'', ''Stripe'', ''Plaid'', ''Square'', ''Chime'', ''Robinhood'']"
  by code_simp

lemma sample_names_specific_4:
  "list_all (\<lambda>c. \<not> isGenericCompanyName c)
     [''Teladoc'', ''Walgreens Health'', ''Johnson & Johnson'', ''Moderna'',
      ''One Medical'', ''Coursera'', ''Khan Academy'', ''Udemy'', ''Outschool'',
      ''Riot Games'', ''Epic Games'', ''Blizzard Entertainment'', ''Ubisoft'',
      ''Supercell'']"
  by code_simp

lemma sample_names_specific:
  assumes "c \<in> set DEFAULT_COMPANIES \<or> (\<exists>bucket \<in> set COMPANY_BUCKETS. c \<in> set (companies bucket))"
  shows "\<not> isGenericCompanyName c"
proof -
  from assms have "c \<in> set
     ([''Snowflake'', ''Databricks'', ''Palantir'', ''Anthropic'', ''Airbnb'', ''Vercel'',
      ''Netlify'', ''Canva'', ''Shopify'', ''Pinterest'', ''Cloudflare'', ''HashiCorp'',
      ''Twilio'', ''DigitalOcean'', ''MongoDB'', ''Datadog'', ''PagerDuty'']
     @ [''GitHub'', ''GitLab'', ''New Relic'', ''Spotify'', ''Duolingo'', ''Lyft'',
      ''Uber'', ''Headspace'', ''Okta'', ''CrowdStrike'', ''Snyk'', ''1Password'',
      ''Atlassian'', ''Notion'', ''Asana'', ''Monday.com'', ''Linear'']
     @ [''Figma'', ''Adobe'', ''IDEO'', ''InVision'', ''HubSpot'', ''Klaviyo'',
      ''Mailchimp'', ''Sprout Social'', ''Salesforce'', ''Gong'', ''Outreach'',
      ''Zendesk'', ''Stripe'', ''Plaid'', ''Square'', ''Chime'', ''Robinhood'']
     @ [''Teladoc'', ''Walgreens Health'', ''Johnson & Johnson'', ''Moderna'',
      ''One Medical'', ''Coursera'', ''Khan Academy'', ''Udemy'', ''Outschool'',
      ''Riot Games'', ''Epic Games'', ''Blizzard Entertainment'', ''Ubisoft'',
      ''Supercell''])"
    unfolding DEFAULT_COMPANIES_def COMPANY_BUCKETS_def by auto
  then show ?thesis
    using sample_names_specific_1 sample_names_specific_2 sample_names_specific_3
      sample_names_specific_4
    unfolding set_append Un_iff list_all_iff by blast
qed

lemma pickSampleCompany_specific: "\<not> isGenericCompanyName (pickSampleCompany q i)"
proof -
  obtain cs h where cs: "5 \<le> length cs"
    and src: "cs = DEFAULT_COMPANIES \<or> (\<exists>bucket \<in> set COMPANY_BUCKETS. cs = companies bucket)"
    and pick: "pickSampleCompany q i = cs ! nat ((h + int i) mod int (length cs))"
    using pickSampleCompany_form [of q] by blast
  have "0 < int (length cs)"
    using cs by linarith
  then have "(h + int i) mod int (length cs) < int (length cs)"
    and "0 \<le> (h + int i) mod int (length cs)"
    by (rule pos_mod_bound, rule pos_mod_sign)
  then have "nat ((h + int i) mod int (length cs)) < length cs"
    by (simp only: nat_less_iff)
  then have "pickSampleCompany q i \<in> set cs"
    unfolding pick by (rule nth_mem)
  with src show ?thesis
    by (intro sample_names_specific) blast
qed

lemma empty_name_generic: "isGenericCompanyName []"
  by (simp add: isGenericCompanyName_def trim_def toLowerCase_def)

lemma normaliseCompanyName_tiers:
  "(orEmpty (map_option trim raw) \<noteq> [] \<and> \<not> isGenericCompanyName (orEmpty (map_option trim raw))
      \<longrightarrow> normaliseCompanyName P raw link q i = orEmpty (map_option trim raw))
   \<and> (\<not> (orEmpty (map_option trim raw) \<noteq> [] \<and> \<not> isGenericCompanyName (orEmpty (map_option trim raw)))
        \<and> orEmpty (deriveCompanyFromLink P link) \<noteq> []
      \<longrightarrow> deriveCompanyFromLink P link = Some (normaliseCompanyName P raw link q i))
   \<and> (\<not> (orEmpty (map_option trim raw) \<noteq> [] \<and> \<not> isGenericCompanyName (orEmpty (map_option trim raw)))
        \<and> orEmpty (deriveCompanyFromLink P link) = []
      \<longrightarrow> normaliseCompanyName P raw link q i = pickSampleCompany q i)"
  by (auto simp: normaliseCompanyName_def Let_def orEmpty_def split: option.splits)

lemma normaliseCompanyName_result:
  "normaliseCompanyName P raw link q i \<noteq> []
   \<and> (isGenericCompanyName (normaliseCompanyName P raw link q i)
        \<longrightarrow> deriveCompanyFromLink P link = Some (normaliseCompanyName P raw link q i))"
proof -
  consider (verbatim) "orEmpty (map_option trim raw) \<noteq> []"
      "\<not> isGenericCompanyName (orEmpty (map_option trim raw))"
    | (derived) "\<not> (orEmpty (map_option trim raw) \<noteq> [] \<and> \<not> isGenericCompanyName (orEmpty (map_option trim raw)))"
      "orEmpty (deriveCompanyFromLink P link) \<noteq> []"
    | (sampled) "\<not> (orEmpty (map_option trim raw) \<noteq> [] \<and> \<not> isGenericCompanyName (orEmpty (map_option trim raw)))"
      "orEmpty (deriveCompanyFromLink P link) = []"
    by blast
  then show ?thesis
  proof cases
    case verbatim
    then have "normaliseCompanyName P raw link q i = orEmpty (map_option trim raw)"
      using normaliseCompanyName_tiers [of raw P link q i] by blast
    with verbatim show ?thesis by simp
  next
    case derived
    then have d: "deriveCompanyFromLink P link = Some (normaliseCompanyName P raw link q i)"
      using normaliseCompanyName_tiers [of raw P link q i] by blast
    with derived(2) show ?thesis
      by (simp add: orEmpty_def)
  next
    case sampled
    then have "normaliseCompanyName P raw link q i = pickSampleCompany q i"
      using normaliseCompanyName_tiers [of raw P link q i] by blast
    then have "\<not> isGenericCompanyName (normaliseCompanyName P raw link q i)"
      by (simp only: pickSampleCompany_specific not_False_eq_True)
    then show ?thesis
      using empty_name_generic by auto
  qed
qed

lemma assemblePosting_company:
  assumes "assemblePosting P R queries loc remote index job = Inr posting"
  shows "company posting = Some (normaliseCompanyName P (stringProp job ''company'')
           (orEmpty (stringProp job ''link'')) (queries ! (index mod length queries)) index)"
  using assms
  by (auto simp: assemblePosting_def Let_def split: if_splits sum.splits prod.splits)

lemma fallback_companies_specific:
  "\<forall>posting \<in> set (buildFallbackJobs P now queries loc remote).
     \<exists>c. company posting = Some c \<and> \<not> isGenericCompanyName c"
  unfolding buildFallbackJobs_blocks
  by (auto simp: fallbackPosting_company pickSampleCompany_specific)


text \<open>
  C2, as amended: for every posting of a list that the engine returns, the company is
  present and not empty, and it is not a generic placeholder when it is the verbatim name
  given by the model (tier 1) or a bucket-sampled name (tier 3), which covers every
  posting of the fallback list. A link-derived name (tier 2) is used as it is whenever it
  is not empty: a company that \<open>isGenericCompanyName\<close> judges generic is the name derived
  from the link of one of the raw postings of the reply.
\<close>

theorem posting_companies:
  "(generateJobsWithGemini P R queries loc remote = Inr postings \<longrightarrow>
      (\<forall>posting \<in> set postings. \<exists>c. company posting = Some c \<and> c \<noteq> []
          \<and> (isGenericCompanyName c \<longrightarrow>
                (\<exists>jobs job. suggestedJobs P R = Inr jobs \<and> job \<in> set jobs
                   \<and> deriveCompanyFromLink P (orEmpty (stringProp job ''link'')) = Some c))))
   \<and> (\<forall>posting \<in> set (buildFallbackJobs P now queries loc remote).
         \<exists>c. company posting = Some c \<and> \<not> isGenericCompanyName c)
   \<and> (orEmpty (deriveCompanyFromLink P link) = []
        \<or> orEmpty (map_option trim raw) \<noteq> [] \<and> \<not> isGenericCompanyName (orEmpty (map_option trim raw))
      \<longrightarrow> \<not> isGenericCompanyName (normaliseCompanyName P raw link q i))"
proof (intro conjI impI)
  assume gen: "generateJobsWithGemini P R queries loc remote = Inr postings"
  from gen show "\<forall>posting \<in> set postings. \<exists>c. company posting = Some c \<and> c \<noteq> []
          \<and> (isGenericCompanyName c \<longrightarrow>
                (\<exists>jobs job. suggestedJobs P R = Inr jobs \<and> job \<in> set jobs
                   \<and> deriveCompanyFromLink P (orEmpty (stringProp job ''link'')) = Some c))"
  proof (cases rule: generateJobs_cases)
    case 1
    show ?thesis
    proof
      fix posting
      assume "posting \<in> set postings"
      with 1 fallback_companies_specific obtain c where "company posting = Some c"
        "\<not> isGenericCompanyName c"
        by blast
      then show "\<exists>c. company posting = Some c \<and> c \<noteq> []
          \<and> (isGenericCompanyName c \<longrightarrow>
                (\<exists>jobs job. suggestedJobs P R = Inr jobs \<and> job \<in> set jobs
                   \<and> deriveCompanyFromLink P (orEmpty (stringProp job ''link'')) = Some c))"
        using empty_name_generic by auto
    qed
  next
    case (2 jobs ps)
    from mapIndexed_Inr [OF 2(3)] have len: "length ps = length jobs"
      and each: "\<And>k. k < length jobs \<Longrightarrow>
        assemblePosting P R queries loc remote k (jobs ! k) = Inr (ps ! k)"
      by auto
    show ?thesis
    proof
      fix posting
      assume "posting \<in> set postings"
      with 2(4) have "posting \<in> set ps" by simp
      then obtain k where k: "k < length jobs" "ps ! k = posting"
        using len by (auto simp: in_set_conv_nth)
      let ?c = "normaliseCompanyName P (stringProp (jobs ! k) ''company'')
           (orEmpty (stringProp (jobs ! k) ''link'')) (queries ! (k mod length queries)) k"
      from each [OF k(1)] k(2) have c: "company posting = Some ?c"
        by (simp add: assemblePosting_company)
      have "jobs ! k \<in> set jobs"
        using k(1) by simp
      with c 2(1) normaliseCompanyName_result [of P "stringProp (jobs ! k) ''company''"
          "orEmpty (stringProp (jobs ! k) ''link'')" "queries ! (k mod length queries)" k]
      show "\<exists>c. company posting = Some c \<and> c \<noteq> []
          \<and> (isGenericCompanyName c \<longrightarrow>
                (\<exists>jobs job. suggestedJobs P R = Inr jobs \<and> job \<in> set jobs
                   \<and> deriveCompanyFromLink P (orEmpty (stringProp job ''link'')) = Some c))"
        by blast
    qed
  qed
next
  show "\<forall>posting \<in> set (buildFallbackJobs P now queries loc remote).
         \<exists>c. company posting = Some c \<and> \<not> isGenericCompanyName c"
    by (rule fallback_companies_specific)
next
  assume "orEmpty (deriveCompanyFromLink P link) = []
        \<or> orEmpty (map_option trim raw) \<noteq> [] \<and> \<not> isGenericCompanyName (orEmpty (map_option trim raw))"
  then show "\<not> isGenericCompanyName (normaliseCompanyName P raw link q i)"
    using normaliseCompanyName_tiers [of raw P link q i] pickSampleCompany_specific [of q i]
    by (cases "orEmpty (map_option trim raw) \<noteq> []
          \<and> \<not> isGenericCompanyName (orEmpty (map_option trim raw))") auto
qed

lemma suggested_greenhouse:
  "suggestedJobs examplePlatform (answeringRun greenhouseReply)
     = Inr [JObject [(''title'', JString ''SRE''),
                     (''link'', JString ''https://boards.greenhouse.io/unknown/jobs/123'')]]"
  by code_simp

lemma unknown_generic: "isGenericCompanyName ''Unknown''"
  by code_simp

lemma padded_name_specific:
  "orEmpty (map_option trim (Some '' Canva '')) = ''Canva''
   \<and> \<not> isGenericCompanyName ''Canva''"
  by code_simp

theorem posting_companies_witness:
  "generateJobsWithGemini examplePlatform (answeringRun greenhouseReply) [backendQuery]
     (Some ''Berlin'') False
   = Inr [\<lparr>id' = ''gemini-1700000000000-0'', title' = ''SRE'', company = Some ''Unknown'',
           location = Some ''Berlin'', salary = None,
           description = Some ''Review opportunities that align with Backend Engineer.'',
           url = ''https://boards.greenhouse.io/unknown/jobs/123'',
           source = Some ''AI curated'', postedAt = None\<rparr>]
   \<and> deriveCompanyFromLink examplePlatform ''https://boards.greenhouse.io/unknown/jobs/123''
       = Some ''Unknown''
   \<and> list_all (\<lambda>posting. \<exists>c. company posting = Some c \<and> \<not> isGenericCompanyName c)
       (buildFallbackJobs examplePlatform 1700000000000 [backendQuery] (Some ''Berlin'') False)
   \<and> \<not> isGenericCompanyName
       (normaliseCompanyName examplePlatform (Some '' Canva '')
          ''https://boards.greenhouse.io/unknown/jobs/123'' backendQuery 0)"
proof -
  note inst = posting_companies [of examplePlatform "answeringRun greenhouseReply" "[backendQuery]"
      "Some ''Berlin''" False _ 1700000000000 "''https://boards.greenhouse.io/unknown/jobs/123''"
      "Some '' Canva ''" backendQuery 0]
  from inst [THEN conjunct1, rule_format, OF run_greenhouse]
  have "isGenericCompanyName ''Unknown'' \<longrightarrow>
      (\<exists>jobs job. suggestedJobs examplePlatform (answeringRun greenhouseReply) = Inr jobs
         \<and> job \<in> set jobs
         \<and> deriveCompanyFromLink examplePlatform (orEmpty (stringProp job ''link'')) = Some ''Unknown'')"
    by simp
  with unknown_generic have a: "deriveCompanyFromLink examplePlatform
      ''https://boards.greenhouse.io/unknown/jobs/123'' = Some ''Unknown''"
    by (auto simp: suggested_greenhouse stringProp_def orEmpty_def)
  from inst [THEN conjunct2, THEN conjunct1]
  have b: "list_all (\<lambda>posting. \<exists>c. company posting = Some c \<and> \<not> isGenericCompanyName c)
       (buildFallbackJobs examplePlatform 1700000000000 [backendQuery] (Some ''Berlin'') False)"
    by (simp only: list_all_iff)
  from inst [THEN conjunct2, THEN conjunct2] padded_name_specific
  have c: "\<not> isGenericCompanyName
       (normaliseCompanyName examplePlatform (Some '' Canva '')
          ''https://boards.greenhouse.io/unknown/jobs/123'' backendQuery 0)"
    by simp
  from run_greenhouse a b c show ?thesis
    by (intro conjI)
qed

text \<open>
  C2 as stated fails on tier 2: the model gives a posting without company whose link is
  a Greenhouse board named \<open>unknown\<close>; the derived company is \<open>Unknown\<close>, which
  \<open>isGenericCompanyName\<close> judges generic, and it is the company of the returned posting.
\<close>

theorem posting_company_generic_counterexample:
  "map_sum id (map company)
     (generateJobsWithGemini examplePlatform (answeringRun greenhouseReply) [backendQuery]
        (Some ''Berlin'') False)
     = Inr [Some ''Unknown'']
   \<and> isGenericCompanyName ''Unknown''"
  by code_simp

end
